theory Spec2Isabelle
  imports Complex_Main "HOL-Library.Char_ord" "HOL-Library.List_Lexorder"
    "HOL-Library.Product_Lexorder" "HOL-Library.Multiset"
begin

section \<open>Float values of the derived tables\<close>

text \<open>
  The analytics functions of \<^verbatim>\<open>app2.py\<close> compute with float64 columns.  Division by
  zero does not raise there: it yields an infinity or not-a-number, and these values
  travel on through the later operations and the final sort.  The derived values are
  therefore modelled by the type \<open>fl\<close>: a finite value, one of the two infinities, or
  not-a-number.  Finite arithmetic is exact (rounding and overflow of float64 are
  idealised away) and the sign of zero is not distinguished (a zero divisor is \<open>+0\<close>).
  The prices and volumes read from the CSV files are finite, so an observation holds
  them as \<open>real\<close>.
\<close>

datatype fl = Fin real | PInf | NInf | NaN

text \<open>\<open>signed_inf x\<close> is \<open>x * inf\<close> for a finite \<open>x\<close>, which is also \<open>x / 0\<close>.\<close>

definition signed_inf :: "real \<Rightarrow> fl" where
  "signed_inf x = (if x = 0 then NaN else if 0 < x then PInf else NInf)"

fun fneg :: "fl \<Rightarrow> fl" where
  "fneg (Fin x) = Fin (- x)"
| "fneg PInf = NInf"
| "fneg NInf = PInf"
| "fneg NaN = NaN"

fun fadd :: "fl \<Rightarrow> fl \<Rightarrow> fl" where
  "fadd (Fin x) (Fin y) = Fin (x + y)"
| "fadd (Fin x) PInf = PInf"
| "fadd (Fin x) NInf = NInf"
| "fadd PInf (Fin y) = PInf"
| "fadd PInf PInf = PInf"
| "fadd PInf NInf = NaN"
| "fadd NInf (Fin y) = NInf"
| "fadd NInf PInf = NaN"
| "fadd NInf NInf = NInf"
| "fadd NaN b = NaN"
| "fadd a NaN = NaN"

definition fsub :: "fl \<Rightarrow> fl \<Rightarrow> fl" where
  "fsub a b = fadd a (fneg b)"

fun fmul :: "fl \<Rightarrow> fl \<Rightarrow> fl" where
  "fmul (Fin x) (Fin y) = Fin (x * y)"
| "fmul (Fin x) PInf = signed_inf x"
| "fmul (Fin x) NInf = signed_inf (- x)"
| "fmul PInf (Fin y) = signed_inf y"
| "fmul PInf PInf = PInf"
| "fmul PInf NInf = NInf"
| "fmul NInf (Fin y) = signed_inf (- y)"
| "fmul NInf PInf = NInf"
| "fmul NInf NInf = PInf"
| "fmul NaN b = NaN"
| "fmul a NaN = NaN"

fun fdiv :: "fl \<Rightarrow> fl \<Rightarrow> fl" where
  "fdiv (Fin x) (Fin y) = (if y = 0 then signed_inf x else Fin (x / y))"
| "fdiv (Fin x) PInf = Fin 0"
| "fdiv (Fin x) NInf = Fin 0"
| "fdiv PInf (Fin y) = (if y < 0 then NInf else PInf)"
| "fdiv NInf (Fin y) = (if y < 0 then PInf else NInf)"
| "fdiv PInf PInf = NaN"
| "fdiv PInf NInf = NaN"
| "fdiv NInf PInf = NaN"
| "fdiv NInf NInf = NaN"
| "fdiv NaN b = NaN"
| "fdiv a NaN = NaN"

fun fsqrt :: "fl \<Rightarrow> fl" where
  "fsqrt (Fin x) = (if x < 0 then NaN else Fin (sqrt x))"
| "fsqrt PInf = PInf"
| "fsqrt NInf = NaN"
| "fsqrt NaN = NaN"

fun fsum :: "fl list \<Rightarrow> fl" where
  "fsum [] = Fin 0"
| "fsum (x # xs) = fadd x (fsum xs)"

text \<open>The comparison \<open>a <= b\<close> of two floats: false as soon as one side is not-a-number.\<close>

fun fl_le :: "fl \<Rightarrow> fl \<Rightarrow> bool" where
  "fl_le NaN b = False"
| "fl_le a NaN = False"
| "fl_le NInf b = True"
| "fl_le a PInf = True"
| "fl_le (Fin x) (Fin y) = (x \<le> y)"
| "fl_le a b = False"

text \<open>
  The position of a float in an ascending sort, as a key in a linear order: minus
  infinity, the finite values, plus infinity.  Not-a-number takes no part in the
  comparisons of a sort (\<open>sort_values\<close> sets those rows apart); it is given the least key,
  so that "not-a-number last" is one more step of the same descending order.
\<close>

fun rank :: "fl \<Rightarrow> nat \<times> real" where
  "rank NaN = (0, 0)"
| "rank NInf = (1, 0)"
| "rank (Fin x) = (2, x)"
| "rank PInf = (3, 0)"

section \<open>The Time-Series Table\<close>

text \<open>
  \<open>load_stock_data\<close> builds one frame from all CSV files, with the columns \<open>Date\<close>
  (a timestamp, here the calendar date as year, month, day), \<open>Close\<close>, \<open>Volume\<close> and
  \<open>Symbol\<close> (the file name).  \<open>calculate_monthly_performance\<close> assigns a further column
  \<open>Month\<close> to the frame it is given, so the frame has that column as an optional part:
  \<open>None\<close> while the column is absent.  A \<open>frame\<close> is a table that has its columns, with
  any number of rows; the frame without columns is added further down.
\<close>

datatype error = KeyError | IndexError | ValueError

type_synonym date = "nat \<times> nat \<times> nat"

type_synonym period = "nat \<times> nat"

record keyed =
  Symbol :: string

record observation = keyed +
  Date :: date
  Close :: real
  Volume :: real

record frame =
  rows :: "observation list"
  Month_col :: "period list option"

section \<open>The pandas operations used by the calculators\<close>

text \<open>
  \<open>df.groupby(key)\<close>, iterated: one pair of key and group for each distinct key, the keys
  in ascending order, each group holding its rows in the order of the frame.
\<close>

definition groupby :: "('a \<Rightarrow> 'k::linorder) \<Rightarrow> 'a list \<Rightarrow> ('k \<times> 'a list) list" where
  "groupby key xs = map (\<lambda>k. (k, filter (\<lambda>x. key x = k) xs)) (sort (remdups (map key xs)))"

text \<open>
  \<open>DataFrame(result).sort_values(col, ascending=False)\<close> on a float column: the rows
  whose value is not-a-number are set apart and appended in their original order; the
  others are reversed, sorted ascending and reversed again.  The order among equal values
  is that of numpy's sort, which the source leaves open; the stable order is taken here.
\<close>

definition sort_values_desc :: "('a \<Rightarrow> fl) \<Rightarrow> 'a list \<Rightarrow> 'a list" where
  "sort_values_desc col xs =
     rev (sort_key (\<lambda>x. rank (col x)) (rev (filter (\<lambda>x. col x \<noteq> NaN) xs)))
       @ filter (\<lambda>x. col x = NaN) xs"

text \<open>
  \<open>Series.pct_change()\<close>: not-a-number in the first place, then each value divided by
  the one before it, minus one.
\<close>

definition pct_change :: "real list \<Rightarrow> fl list" where
  "pct_change cs =
     (case cs of
        [] \<Rightarrow> []
      | c # rest \<Rightarrow> NaN # map (\<lambda>(prev, cur). fsub (fdiv (Fin cur) (Fin prev)) (Fin 1)) (zip cs rest))"

text \<open>\<open>Series.mean()\<close> of a column of finite values; not-a-number when there is none.\<close>

definition pd_mean :: "real list \<Rightarrow> fl" where
  "pd_mean xs = (if xs = [] then NaN else Fin (sum_list xs / real (length xs)))"

text \<open>
  \<open>Series.std()\<close>: the not-a-number entries are skipped (\<open>skipna=True\<close>) and the
  denominator is the count minus one (\<open>ddof=1\<close>); with fewer than two entries left the
  result is not-a-number.
\<close>

definition pd_std :: "fl list \<Rightarrow> fl" where
  "pd_std xs =
     (let vals = filter (\<lambda>x. x \<noteq> NaN) xs; count = length vals in
      if count \<le> 1 then NaN
      else
        let avg = fdiv (fsum vals) (Fin (real count));
            sqr = map (\<lambda>v. fmul (fsub avg v) (fsub avg v)) vals
        in fsqrt (fdiv (fsum sqr) (Fin (real count - 1))))"

text \<open>
  \<open>Series.cumprod()\<close>: a not-a-number entry stays not-a-number and is left out of the
  running product, which goes on with the next entry.
\<close>

fun cumprod_from :: "fl \<Rightarrow> fl list \<Rightarrow> fl list" where
  "cumprod_from acc [] = []"
| "cumprod_from acc (x # xs) =
     (if x = NaN then NaN # cumprod_from acc xs
      else fmul acc x # cumprod_from (fmul acc x) xs)"

definition cumprod :: "fl list \<Rightarrow> fl list" where
  "cumprod xs = cumprod_from (Fin 1) xs"

text \<open>
  \<open>df.groupby(key)[col].transform(f)\<close> (and \<open>.pct_change()\<close>, which is such a transform):
  \<open>f\<close> is applied to the column of each group, and every row receives the entry of its
  group's result at the row's position within the group.
\<close>

definition group_transform :: "'k list \<Rightarrow> ('v list \<Rightarrow> 'w list) \<Rightarrow> 'v list \<Rightarrow> 'w list" where
  "group_transform ks f vs =
     map (\<lambda>i. f (map snd (filter (\<lambda>p. fst p = ks ! i) (zip ks vs)))
                 ! length (filter (\<lambda>k. k = ks ! i) (take i ks)))
         [0..<length ks]"

text \<open>A loop that appends one computed row for each group and stops at the first exception.\<close>

fun collect :: "('g \<Rightarrow> error + 'r) \<Rightarrow> 'g list \<Rightarrow> error + 'r list" where
  "collect f [] = Inr []"
| "collect f (g # gs) =
     (case f g of
        Inl e \<Rightarrow> Inl e
      | Inr r \<Rightarrow> (case collect f gs of Inl e \<Rightarrow> Inl e | Inr rs \<Rightarrow> Inr (r # rs)))"

section \<open>Per-symbol metrics\<close>

record metrics = keyed +
  Return_pct :: fl
  Avg_Price :: fl
  Avg_Volume :: fl

text \<open>
  The body of the loop of \<open>calculate_metrics\<close>.  \<open>iloc[0]\<close> raises \<open>IndexError\<close> on a frame
  without rows.
\<close>

definition metrics_of :: "string \<times> observation list \<Rightarrow> error + metrics" where
  "metrics_of g =
     (let symbol = fst g; data = sort_key Date (snd g) in
      case data of
        [] \<Rightarrow> Inl IndexError
      | first # _ \<Rightarrow>
          let start = Fin (Close first);
              end' = Fin (Close (last data));
              yearly_return = fmul (fdiv (fsub end' start) start) (Fin 100)
          in Inr \<lparr>Symbol = symbol, Return_pct = yearly_return,
                  Avg_Price = pd_mean (map Close data),
                  Avg_Volume = pd_mean (map Volume data)\<rparr>)"

text \<open>
  \<open>calculate_metrics\<close>.  When the loop has appended nothing, \<open>pd.DataFrame([])\<close> is a frame
  without columns and sorting it by \<open>"Return (%)"\<close> raises \<open>KeyError\<close>.
\<close>

definition calculate_metrics :: "frame \<Rightarrow> error + metrics list" where
  "calculate_metrics df =
     (case collect metrics_of (groupby Symbol (rows df)) of
        Inl e \<Rightarrow> Inl e
      | Inr result \<Rightarrow>
          if result = [] then Inl KeyError else Inr (sort_values_desc Return_pct result))"

section \<open>Volatility\<close>

record volatility = keyed +
  Volatility :: fl

definition volatility_of :: "string \<times> observation list \<Rightarrow> volatility" where
  "volatility_of g =
     (let symbol = fst g; data = sort_key Date (snd g);
          daily_return = pct_change (map Close data)
      in \<lparr>Symbol = symbol, Volatility = pd_std daily_return\<rparr>)"

definition calculate_volatility :: "frame \<Rightarrow> error + volatility list" where
  "calculate_volatility df =
     (let vol = map volatility_of (groupby Symbol (rows df)) in
      if vol = [] then Inl KeyError else Inr (sort_values_desc Volatility vol))"

section \<open>Cumulative returns\<close>

record cumulative = observation +
  Daily_Return :: fl
  Cumulative_Return :: fl

text \<open>
  \<open>calculate_cumulative_returns\<close> works on a copy of the selected rows: the frame it is
  given is only read.  Sorting by the two columns \<open>Symbol\<close>, \<open>Date\<close> is stable.
\<close>

definition calculate_cumulative_returns :: "frame \<Rightarrow> string list \<Rightarrow> cumulative list" where
  "calculate_cumulative_returns df top_symbols =
     (let subset = filter (\<lambda>ob. Symbol ob \<in> set top_symbols) (rows df);
          subset = sort_key (\<lambda>ob. (Symbol ob, Date ob)) subset;
          daily = group_transform (map Symbol subset) pct_change (map Close subset);
          cum = group_transform (map Symbol subset)
                  (\<lambda>x. cumprod (map (\<lambda>r. fadd (Fin 1) r) x)) daily
      in map (\<lambda>(ob, r, c). \<lparr>Symbol = Symbol ob, Date = Date ob, Close = Close ob,
                               Volume = Volume ob, Daily_Return = r, Cumulative_Return = c\<rparr>)
           (zip subset (zip daily cum)))"

section \<open>Monthly performance\<close>

record monthly = keyed +
  Month :: period
  Return :: fl

text \<open>\<open>dt.to_period('M')\<close>: the year and the month of a date; the day is dropped.\<close>

definition to_period_M :: "date \<Rightarrow> period" where
  "to_period_M d = (fst d, fst (snd d))"

text \<open>
  The body of the loop of \<open>calculate_monthly_performance\<close>; a row of a group is an
  observation together with its entry of the \<open>Month\<close> column.
\<close>

definition monthly_of :: "(period \<times> string) \<times> (period \<times> observation) list \<Rightarrow> error + monthly" where
  "monthly_of g =
     (let month = fst (fst g); symbol = snd (fst g);
          group = sort_key (\<lambda>r. Date (snd r)) (snd g) in
      case group of
        [] \<Rightarrow> Inl IndexError
      | first # _ \<Rightarrow>
          let c0 = Fin (Close (snd first));
              c1 = Fin (Close (snd (last group)));
              m_return = fmul (fdiv (fsub c1 c0) c0) (Fin 100)
          in Inr \<lparr>Symbol = symbol, Month = month, Return = m_return\<rparr>)"

text \<open>
  \<open>calculate_monthly_performance\<close> first assigns the column \<open>Month\<close> to the frame of its
  caller, then groups by that column and \<open>Symbol\<close>.  The result is paired with the frame
  as the call leaves it.  The months \<open>"YYYY-MM"\<close> are ordered as their (year, month) pairs.
\<close>

definition calculate_monthly_performance :: "frame \<Rightarrow> (error + monthly list) \<times> frame" where
  "calculate_monthly_performance df =
     (let months = map (\<lambda>ob. to_period_M (Date ob)) (rows df);
          df' = df\<lparr>Month_col := Some months\<rparr>;
          groups = groupby (\<lambda>r. (fst r, Symbol (snd r))) (zip months (rows df'))
      in (collect monthly_of groups, df'))"

section \<open>Correlation\<close>

text \<open>
  \<open>df.pivot(index="Date", columns="Symbol", values="Close")\<close>: one line for each date
  and one column for each symbol, both ascending; a cell is missing when the symbol has
  no observation at that date.  Two rows with the same date and symbol raise
  \<open>ValueError\<close>.  The table is kept by columns.
\<close>

record pivot_table =
  index :: "date list"
  columns :: "(string \<times> real option list) list"

definition pivot :: "frame \<Rightarrow> error + pivot_table" where
  "pivot df =
     (let xs = rows df in
      if \<not> distinct (map (\<lambda>ob. (Date ob, Symbol ob)) xs) then Inl ValueError
      else
        let idx = sort (remdups (map Date xs));
            syms = sort (remdups (map Symbol xs))
        in Inr \<lparr>index = idx,
                columns = map (\<lambda>s. (s, map (\<lambda>d. map_option Close
                            (find (\<lambda>ob. Date ob = d \<and> Symbol ob = s) xs)) idx)) syms\<rparr>)"

text \<open>\<open>pivot[names]\<close>: the named columns in the order asked; an unknown name raises \<open>KeyError\<close>.\<close>

definition getitem :: "pivot_table \<Rightarrow> string list \<Rightarrow> error + pivot_table" where
  "getitem p names =
     (case collect (\<lambda>s. case map_of (columns p) s of None \<Rightarrow> Inl KeyError
                                                   | Some c \<Rightarrow> Inr (s, c)) names of
        Inl e \<Rightarrow> Inl e
      | Inr cs \<Rightarrow> Inr (p\<lparr>columns := cs\<rparr>))"

text \<open>
  One cell of \<open>DataFrame.corr()\<close> (Pearson, \<open>min_periods=1\<close>): the lines where both columns
  have a value are kept; the cell is the sum of the products of the deviations from the
  two means over the root of the product of the two sums of squared deviations, and
  not-a-number when no line is left or when that root is zero.
\<close>

definition complete_pairs :: "real option list \<Rightarrow> real option list \<Rightarrow> (real \<times> real) list" where
  "complete_pairs xs ys =
     concat (map (\<lambda>p. case p of (Some x, Some y) \<Rightarrow> [(x, y)] | _ \<Rightarrow> []) (zip xs ys))"

definition nancorr :: "real option list \<Rightarrow> real option list \<Rightarrow> fl" where
  "nancorr xs ys =
     (let ps = complete_pairs xs ys; nobs = length ps;
          meanx = sum_list (map fst ps) / real nobs;
          meany = sum_list (map snd ps) / real nobs;
          ssqdm_x = sum_list (map (\<lambda>p. (fst p - meanx) * (fst p - meanx)) ps);
          ssqdm_y = sum_list (map (\<lambda>p. (snd p - meany) * (snd p - meany)) ps);
          covxy = sum_list (map (\<lambda>p. (fst p - meanx) * (snd p - meany)) ps);
          divisor = sqrt (ssqdm_x * ssqdm_y)
      in if nobs < 1 then NaN
         else if divisor \<noteq> 0 then Fin (covxy / divisor) else NaN)"

text \<open>
  \<open>DataFrame.corr()\<close> computes the cell of columns \<open>xi\<close> and \<open>yi\<close> once, for \<open>yi <= xi\<close>, and
  stores it at both places of the matrix.
\<close>

definition corr :: "pivot_table \<Rightarrow> fl list list" where
  "corr p =
     (let cols = map snd (columns p); K = length cols in
      map (\<lambda>i. map (\<lambda>j. nancorr (cols ! max i j) (cols ! min i j)) [0..<K]) [0..<K])"

text \<open>The correlation step of the dashboard, for the selected symbols \<open>top15\<close>.\<close>

definition correlation :: "frame \<Rightarrow> string list \<Rightarrow> error + fl list list" where
  "correlation df top15 =
     (case pivot df of
        Inl e \<Rightarrow> Inl e
      | Inr pv \<Rightarrow> (case getitem pv top15 of Inl e \<Rightarrow> Inl e | Inr sel \<Rightarrow> Inr (corr sel)))"

section \<open>A frame without columns\<close>

text \<open>
  \<open>load_stock_data\<close> returns \<open>pd.DataFrame()\<close>, a frame without any column, when the
  directory does not exist or holds no CSV file; otherwise it returns the table built
  from the files, which has its columns even when the files hold no row.  So a calculator
  can be handed either.  Each calculator begins with the lookup of a column
  (\<open>groupby("Symbol")\<close>, \<open>df["Symbol"]\<close>, \<open>df['Date']\<close>, \<open>pivot(index="Date", ...)\<close>),
  which raises \<open>KeyError\<close> on the frame without columns before anything else is done:
  there, \<open>calculate_monthly_performance\<close> raises before it assigns its column.
\<close>

datatype dataframe = No_columns | Table frame

text \<open>\<open>df.empty\<close>: no column, or no row.\<close>

definition df_empty :: "dataframe \<Rightarrow> bool" where
  "df_empty d = (case d of No_columns \<Rightarrow> True | Table df \<Rightarrow> rows df = [])"

definition calculate_metrics_on :: "dataframe \<Rightarrow> error + metrics list" where
  "calculate_metrics_on d =
     (case d of No_columns \<Rightarrow> Inl KeyError | Table df \<Rightarrow> calculate_metrics df)"

definition calculate_volatility_on :: "dataframe \<Rightarrow> error + volatility list" where
  "calculate_volatility_on d =
     (case d of No_columns \<Rightarrow> Inl KeyError | Table df \<Rightarrow> calculate_volatility df)"

definition calculate_cumulative_returns_on ::
    "dataframe \<Rightarrow> string list \<Rightarrow> error + cumulative list" where
  "calculate_cumulative_returns_on d top_symbols =
     (case d of
        No_columns \<Rightarrow> Inl KeyError
      | Table df \<Rightarrow> Inr (calculate_cumulative_returns df top_symbols))"

definition calculate_monthly_performance_on ::
    "dataframe \<Rightarrow> (error + monthly list) \<times> dataframe" where
  "calculate_monthly_performance_on d =
     (case d of
        No_columns \<Rightarrow> (Inl KeyError, No_columns)
      | Table df \<Rightarrow>
          let (monthly, df') = calculate_monthly_performance df in (monthly, Table df'))"

definition correlation_on :: "dataframe \<Rightarrow> string list \<Rightarrow> error + fl list list" where
  "correlation_on d top15 =
     (case d of No_columns \<Rightarrow> Inl KeyError | Table df \<Rightarrow> correlation df top15)"

section \<open>The dashboard script\<close>

text \<open>
  The script below the functions loads the frame and, under \<open>if not df.empty\<close>, calls
  the calculators in turn; on an empty frame it calls none of them and shows a warning
  instead.  The model keeps what is computed, not how it is drawn.  An exception of a
  calculator ends the script; the frame is returned as the script leaves it.
\<close>

record dashboard =
  metrics_df :: "metrics list"
  cum_df :: "cumulative list"
  vol_df :: "volatility list"
  heatmap :: "fl list list"
  monthly_perf :: "monthly list"

datatype page = Warning string | Dashboard dashboard

definition app :: "dataframe \<Rightarrow> (error + page) \<times> dataframe" where
  "app d =
     (if df_empty d then (Inr (Warning ''No data found. Please check your CSV path.''), d)
      else
        case calculate_metrics_on d of
          Inl e \<Rightarrow> (Inl e, d)
        | Inr metrics \<Rightarrow>
            let top5_symbols = map Symbol (take 5 metrics) in
            case calculate_cumulative_returns_on d top5_symbols of
              Inl e \<Rightarrow> (Inl e, d)
            | Inr cum \<Rightarrow>
                case calculate_volatility_on d of
                  Inl e \<Rightarrow> (Inl e, d)
                | Inr vol \<Rightarrow>
                    let top15 = map Symbol (take 15 metrics) in
                    case correlation_on d top15 of
                      Inl e \<Rightarrow> (Inl e, d)
                    | Inr corr_matrix \<Rightarrow>
                        let (monthly, d') = calculate_monthly_performance_on d in
                        case monthly of
                          Inl e \<Rightarrow> (Inl e, d')
                        | Inr perf \<Rightarrow>
                            (Inr (Dashboard \<lparr>metrics_df = metrics, cum_df = cum,
                                    vol_df = take 10 vol, heatmap = corr_matrix,
                                    monthly_perf = perf\<rparr>), d'))"

section \<open>Example tables\<close>

text \<open>Two symbols over two days, given out of order: \<open>A\<close> gains 10 percent, \<open>B\<close> loses 10.\<close>

definition gain_loss_table :: frame where
  "gain_loss_table =
     \<lparr>rows = [\<lparr>Symbol = ''B'', Date = (2024, 1, 1), Close = 100, Volume = 10\<rparr>,
              \<lparr>Symbol = ''A'', Date = (2024, 1, 2), Close = 110, Volume = 30\<rparr>,
              \<lparr>Symbol = ''B'', Date = (2024, 1, 2), Close = 90, Volume = 20\<rparr>,
              \<lparr>Symbol = ''A'', Date = (2024, 1, 1), Close = 100, Volume = 10\<rparr>],
      Month_col = None\<rparr>"

text \<open>
  Symbol \<open>Z\<close> starts at a close of zero and ends at 5; symbol \<open>B\<close> gains 10 percent.
\<close>

definition zero_start_table :: frame where
  "zero_start_table =
     \<lparr>rows = [\<lparr>Symbol = ''B'', Date = (2024, 1, 1), Close = 100, Volume = 10\<rparr>,
              \<lparr>Symbol = ''Z'', Date = (2024, 1, 1), Close = 0, Volume = 10\<rparr>,
              \<lparr>Symbol = ''B'', Date = (2024, 1, 2), Close = 110, Volume = 20\<rparr>,
              \<lparr>Symbol = ''Z'', Date = (2024, 1, 2), Close = 5, Volume = 30\<rparr>],
      Month_col = None\<rparr>"

section \<open>Volatility as the specification words it\<close>



section \<open>Example tables for the volatility\<close>


text \<open>Symbol \<open>C\<close> with the same close on its two dates.\<close>

definition flat_pair_table :: frame where
  "flat_pair_table =
     \<lparr>rows = [\<lparr>Symbol = ''C'', Date = (2024, 1, 1), Close = 100, Volume = 10\<rparr>,
              \<lparr>Symbol = ''C'', Date = (2024, 1, 2), Close = 100, Volume = 10\<rparr>],
      Month_col = None\<rparr>"

text \<open>Symbol \<open>C\<close> with the same close on three dates, symbol \<open>G\<close> growing by a tenth a day.\<close>

definition flat_table :: frame where
  "flat_table =
     \<lparr>rows = [\<lparr>Symbol = ''C'', Date = (2024, 1, 1), Close = 100, Volume = 10\<rparr>,
              \<lparr>Symbol = ''G'', Date = (2024, 1, 1), Close = 100, Volume = 10\<rparr>,
              \<lparr>Symbol = ''C'', Date = (2024, 1, 2), Close = 100, Volume = 10\<rparr>,
              \<lparr>Symbol = ''G'', Date = (2024, 1, 2), Close = 110, Volume = 10\<rparr>,
              \<lparr>Symbol = ''C'', Date = (2024, 1, 3), Close = 100, Volume = 10\<rparr>,
              \<lparr>Symbol = ''G'', Date = (2024, 1, 3), Close = 121, Volume = 10\<rparr>],
      Month_col = None\<rparr>"

section \<open>Example tables for the cumulative returns and the months\<close>

text \<open>Symbol \<open>A\<close> with closes 100, 110, 99 on three days.\<close>

definition growth_table :: frame where
  "growth_table =
     \<lparr>rows = [\<lparr>Symbol = ''A'', Date = (2024, 1, 1), Close = 100, Volume = 10\<rparr>,
              \<lparr>Symbol = ''A'', Date = (2024, 1, 2), Close = 110, Volume = 10\<rparr>,
              \<lparr>Symbol = ''A'', Date = (2024, 1, 3), Close = 99, Volume = 10\<rparr>],
      Month_col = None\<rparr>"

text \<open>Symbol \<open>S\<close> over January and February: 100, 120, then 120, 90.\<close>

definition two_month_table :: frame where
  "two_month_table =
     \<lparr>rows = [\<lparr>Symbol = ''S'', Date = (2024, 1, 1), Close = 100, Volume = 10\<rparr>,
              \<lparr>Symbol = ''S'', Date = (2024, 1, 31), Close = 120, Volume = 10\<rparr>,
              \<lparr>Symbol = ''S'', Date = (2024, 2, 1), Close = 120, Volume = 10\<rparr>,
              \<lparr>Symbol = ''S'', Date = (2024, 2, 28), Close = 90, Volume = 10\<rparr>],
      Month_col = None\<rparr>"

text \<open>A single observation, with a close of zero.\<close>

definition zero_single_table :: frame where
  "zero_single_table =
     \<lparr>rows = [\<lparr>Symbol = ''Z'', Date = (2024, 1, 15), Close = 0, Volume = 10\<rparr>],
      Month_col = None\<rparr>"

section \<open>The empty table\<close>

text \<open>The table with its columns and no row.\<close>

definition empty_table :: frame where
  "empty_table = \<lparr>rows = [], Month_col = None\<rparr>"

text \<open>
  Three symbols for the two rankings: \<open>H\<close> with closes 1, 3, 6, 6, \<open>C\<close> doubling from
  2 to 8, and \<open>N\<close> with a single observation.
\<close>

definition ranking_table :: frame where
  "ranking_table =
     \<lparr>rows = [\<lparr>Symbol = ''N'', Date = (2024, 1, 2), Close = 50, Volume = 10\<rparr>,
              \<lparr>Symbol = ''C'', Date = (2024, 1, 1), Close = 2, Volume = 10\<rparr>,
              \<lparr>Symbol = ''H'', Date = (2024, 1, 1), Close = 1, Volume = 10\<rparr>,
              \<lparr>Symbol = ''C'', Date = (2024, 1, 2), Close = 4, Volume = 10\<rparr>,
              \<lparr>Symbol = ''H'', Date = (2024, 1, 2), Close = 3, Volume = 10\<rparr>,
              \<lparr>Symbol = ''C'', Date = (2024, 1, 3), Close = 8, Volume = 10\<rparr>,
              \<lparr>Symbol = ''H'', Date = (2024, 1, 3), Close = 6, Volume = 10\<rparr>,
              \<lparr>Symbol = ''H'', Date = (2024, 1, 4), Close = 6, Volume = 10\<rparr>],
      Month_col = None\<rparr>"

section \<open>Grouping, collecting and sorting\<close>


lemma groupby_keys: "map fst (groupby key xs) = sort (remdups (map key xs))"
  by (simp add: groupby_def comp_def)

lemma groupby_distinct: "distinct (map fst (groupby key xs))"
  by (simp add: groupby_keys)

lemma groupby_key_set: "fst ` set (groupby key xs) = key ` set xs"
proof -
  have "set (map fst (groupby key xs)) = key ` set xs"
    by (simp add: groupby_keys)
  then show ?thesis by simp
qed

lemma groupby_member:
  assumes "g \<in> set (groupby key xs)"
  shows "snd g = filter (\<lambda>x. key x = fst g) xs" and "snd g \<noteq> []" and "fst g \<in> key ` set xs"
proof -
  from assms obtain k where k: "k \<in> key ` set xs" and g: "g = (k, filter (\<lambda>x. key x = k) xs)"
    by (auto simp: groupby_def)
  show "snd g = filter (\<lambda>x. key x = fst g) xs" by (simp add: g)
  show "fst g \<in> key ` set xs" using k by (simp add: g)
  from k obtain x where "x \<in> set xs" "key x = k" by auto
  then have "x \<in> set (filter (\<lambda>x. key x = k) xs)" by simp
  then show "snd g \<noteq> []" unfolding g by (metis empty_iff list.set(1) snd_conv)
qed

lemma groupby_has_key:
  assumes "x \<in> set xs"
  shows "(key x, filter (\<lambda>y. key y = key x) xs) \<in> set (groupby key xs)"
  using assms by (auto simp: groupby_def)

lemma groupby_Nil_iff: "groupby key xs = [] \<longleftrightarrow> xs = []"
proof
  assume "groupby key xs = []"
  then have "fst ` set (groupby key xs) = {}" by simp
  then show "xs = []" by (simp add: groupby_key_set)
qed (simp add: groupby_def)

lemma collect_Inr: "collect f gs = Inr rs \<Longrightarrow> list_all2 (\<lambda>g r. f g = Inr r) gs rs"
  by (induction gs arbitrary: rs) (auto split: sum.splits)

lemma collect_total: "(\<forall>g\<in>set gs. \<exists>r. f g = Inr r) \<Longrightarrow> \<exists>rs. collect f gs = Inr rs"
  by (induction gs) (auto split: sum.splits)

lemma mset_sort_values_desc: "mset (sort_values_desc col xs) = mset xs"
proof -
  have "mset (sort_values_desc col xs)
      = mset (filter (\<lambda>x. col x \<noteq> NaN) xs) + mset (filter (\<lambda>x. col x = NaN) xs)"
    by (simp add: sort_values_desc_def)
  also have "\<dots> = mset xs"
    by (induction xs) auto
  finally show ?thesis .
qed

lemma set_sort_values_desc: "set (sort_values_desc col xs) = set xs"
  using mset_sort_values_desc [of col xs] by (metis set_mset_mset)

lemma rank_NaN_least: "rank NaN \<le> rank a"
  by (cases a) simp_all

lemma rank_least: "(0, 0) \<le> rank a"
  by (cases a) simp_all

lemma sorted_sort_values_desc:
  "sorted_wrt (\<lambda>a b. rank (col b) \<le> rank (col a)) (sort_values_desc col xs)"
proof -
  let ?f = "\<lambda>x. rank (col x)"
  let ?ys = "sort_key ?f (rev (filter (\<lambda>x. col x \<noteq> NaN) xs))"
  have "sorted (map ?f ?ys)" by (rule sorted_sort_key)
  then have "sorted_wrt (\<lambda>a b. ?f a \<le> ?f b) ?ys"
    by (simp add: sorted_wrt_map)
  then have 1: "sorted_wrt (\<lambda>a b. ?f b \<le> ?f a) (rev ?ys)"
    by (simp add: sorted_wrt_rev)
  have 2: "sorted_wrt (\<lambda>a b. ?f b \<le> ?f a) (filter (\<lambda>x. col x = NaN) xs)"
    by (rule sorted_wrt_mono_rel [where P = "\<lambda>a b. True"]) (simp_all add: rank_NaN_least)
  have 3: "\<forall>a\<in>set (rev ?ys). \<forall>b\<in>set (filter (\<lambda>x. col x = NaN) xs). ?f b \<le> ?f a"
    by (simp add: rank_least)
  show ?thesis
    unfolding sort_values_desc_def sorted_wrt_append using 1 2 3 by blast
qed

lemma fl_le_rank: "a \<noteq> NaN \<Longrightarrow> b \<noteq> NaN \<Longrightarrow> fl_le a b \<longleftrightarrow> rank a \<le> rank b"
  by (cases a; cases b) simp_all

lemma descending_defined:
  "sorted_wrt (\<lambda>a b. fl_le (col b) (col a)) (filter (\<lambda>x. col x \<noteq> NaN) (sort_values_desc col xs))"
proof -
  have "sorted_wrt (\<lambda>a b. rank (col b) \<le> rank (col a))
          (filter (\<lambda>x. col x \<noteq> NaN) (sort_values_desc col xs))"
    by (rule sorted_wrt_filter) (rule sorted_sort_values_desc)
  then show ?thesis
    by (rule sorted_wrt_mono_rel [rotated]) (simp add: fl_le_rank)
qed

lemma metrics_of_total: "snd g \<noteq> [] \<Longrightarrow> \<exists>m. metrics_of g = Inr m"
proof -
  assume "snd g \<noteq> []"
  then have "sort_key Date (snd g) \<noteq> []"
    by (metis length_sort length_0_conv)
  then show ?thesis
    by (auto simp: metrics_of_def Let_def split: list.splits)
qed

lemma metrics_of_Inr:
  assumes "metrics_of g = Inr m"
  shows "Symbol m = fst g"
    and "Return_pct m = fmul (fdiv (fsub (Fin (Close (last (sort_key Date (snd g)))))
                                         (Fin (Close (hd (sort_key Date (snd g))))))
                                   (Fin (Close (hd (sort_key Date (snd g)))))) (Fin 100)"
  using assms by (auto simp: metrics_of_def Let_def split: list.splits)

lemma collect_map_key:
  assumes "collect f gs = Inr rs" and "\<And>g r. f g = Inr r \<Longrightarrow> k r = fst g"
  shows "map k rs = map fst gs"
  using assms(1)
  by (induction gs arbitrary: rs) (auto split: sum.splits simp: assms(2))

lemma collect_member:
  assumes "collect f gs = Inr rs" and "r \<in> set rs"
  shows "\<exists>g\<in>set gs. f g = Inr r"
proof -
  from assms(1) have "list_all2 (\<lambda>g r. f g = Inr r) gs rs" by (rule collect_Inr)
  with assms(2) show ?thesis
    by (metis (mono_tags, lifting) in_set_conv_nth list_all2_conv_all_nth)
qed

lemma distinct_map_unique:
  "distinct (map f xs) \<Longrightarrow> x \<in> set xs \<Longrightarrow> y \<in> set xs \<Longrightarrow> f x = f y \<Longrightarrow> x = y"
  by (meson distinct_map inj_on_def)

lemma distinct_sort_values_desc:
  "distinct (map k xs) \<Longrightarrow> distinct (map k (sort_values_desc col xs))"
proof -
  have "mset (map k (sort_values_desc col xs)) = mset (map k xs)"
    by (simp add: mset_sort_values_desc)
  then show "distinct (map k xs) \<Longrightarrow> distinct (map k (sort_values_desc col xs))"
    by (metis mset_eq_imp_distinct_iff)
qed

lemma calculate_metrics_total:
  assumes "rows df \<noteq> []"
  shows "\<exists>ms. calculate_metrics df = Inr ms"
proof -
  let ?gs = "groupby Symbol (rows df)"
  have "\<forall>g\<in>set ?gs. \<exists>m. metrics_of g = Inr m"
  proof
    fix g assume "g \<in> set ?gs"
    then have "snd g \<noteq> []" by (rule groupby_member(2))
    then show "\<exists>m. metrics_of g = Inr m" by (rule metrics_of_total)
  qed
  then obtain result where result: "collect metrics_of ?gs = Inr result"
    using collect_total by blast
  then have "length result = length ?gs"
    by (metis collect_Inr list_all2_lengthD)
  moreover have "?gs \<noteq> []" using assms by (simp add: groupby_Nil_iff)
  ultimately have "result \<noteq> []" by auto
  with result show ?thesis by (simp add: calculate_metrics_def)
qed

lemma calculate_metrics_rows:
  assumes "calculate_metrics df = Inr ms"
  shows "distinct (map Symbol ms)"
    and "Symbol ` set ms = Symbol ` set (rows df)"
    and "\<forall>m\<in>set ms. metrics_of (Symbol m, filter (\<lambda>x. Symbol x = Symbol m) (rows df)) = Inr m"
    and "sorted_wrt (\<lambda>a b. rank (Return_pct b) \<le> rank (Return_pct a)) ms"
proof -
  let ?gs = "groupby Symbol (rows df)"
  from assms obtain result where result: "collect metrics_of ?gs = Inr result"
    and ms: "ms = sort_values_desc Return_pct result"
    by (auto simp: calculate_metrics_def split: sum.splits if_splits)
  have keys: "map Symbol result = map fst ?gs"
    using result by (rule collect_map_key) (simp add: metrics_of_Inr(1))
  then have "distinct (map Symbol result)" by (simp add: groupby_distinct)
  then show "distinct (map Symbol ms)" unfolding ms by (rule distinct_sort_values_desc)
  have "set (map Symbol result) = set (map fst ?gs)" using keys by simp
  then show "Symbol ` set ms = Symbol ` set (rows df)"
    by (simp add: ms set_sort_values_desc groupby_key_set)
  show "\<forall>m\<in>set ms. metrics_of (Symbol m, filter (\<lambda>x. Symbol x = Symbol m) (rows df)) = Inr m"
  proof
    fix m assume "m \<in> set ms"
    then have "m \<in> set result" by (simp add: ms set_sort_values_desc)
    then obtain g where g: "g \<in> set ?gs" "metrics_of g = Inr m"
      using collect_member [OF result] by blast
    then have "fst g = Symbol m" by (simp add: metrics_of_Inr(1))
    moreover have "snd g = filter (\<lambda>x. Symbol x = fst g) (rows df)"
      using g(1) by (rule groupby_member(1))
    ultimately have "g = (Symbol m, filter (\<lambda>x. Symbol x = Symbol m) (rows df))"
      by (metis prod.collapse)
    with g(2) show "metrics_of (Symbol m, filter (\<lambda>x. Symbol x = Symbol m) (rows df)) = Inr m"
      by simp
  qed
  show "sorted_wrt (\<lambda>a b. rank (Return_pct b) \<le> rank (Return_pct a)) ms"
    unfolding ms by (rule sorted_sort_values_desc)
qed

lemma unique_row:
  assumes "distinct (map k ms)" and "s \<in> k ` set ms"
  shows "\<exists>!m. m \<in> set ms \<and> k m = s"
  using assms by (auto dest: distinct_map_unique)

text \<open>
  Claim C3.  For every symbol with at least two observations and a nonzero first close,
  \<open>calculate_metrics\<close> returns exactly one row for the symbol, and its \<open>Return (%)\<close> is
  \<open>(last - first) / first * 100\<close>, first and last being the closes of the symbol's
  observations sorted by ascending date.
\<close>

theorem returnPct_matches_formula:
  assumes "data = sort_key Date (filter (\<lambda>x. Symbol x = s) (rows df))"
    and "2 \<le> length data"
    and "Close (hd data) \<noteq> 0"
  shows "\<exists>ms. calculate_metrics df = Inr ms
            \<and> (\<exists>!m. m \<in> set ms \<and> Symbol m = s)
            \<and> (\<forall>m\<in>set ms. Symbol m = s \<longrightarrow>
                   Return_pct m = Fin ((Close (last data) - Close (hd data)) / Close (hd data) * 100))"
proof -
  have "filter (\<lambda>x. Symbol x = s) (rows df) \<noteq> []"
    using assms(1,2) by auto
  then obtain x where x: "x \<in> set (rows df)" "Symbol x = s"
    by (metis (mono_tags, lifting) filter_False)
  then have "rows df \<noteq> []" by auto
  then obtain ms where ms: "calculate_metrics df = Inr ms"
    using calculate_metrics_total by blast
  have "s \<in> Symbol ` set ms"
    using x calculate_metrics_rows(2) [OF ms] by blast
  then have uniq: "\<exists>!m. m \<in> set ms \<and> Symbol m = s"
    using calculate_metrics_rows(1) [OF ms] by (rule unique_row [rotated])
  have "Return_pct m = Fin ((Close (last data) - Close (hd data)) / Close (hd data) * 100)"
    if "m \<in> set ms" "Symbol m = s" for m
  proof -
    have "metrics_of (s, filter (\<lambda>x. Symbol x = s) (rows df)) = Inr m"
      using calculate_metrics_rows(3) [OF ms] that by blast
    then show ?thesis
      using assms(3) by (simp add: metrics_of_Inr(2) assms(1) fsub_def)
  qed
  with ms uniq show ?thesis by blast
qed

theorem returnPct_matches_formula_witness:
  "2 \<le> length (sort_key Date (filter (\<lambda>x. Symbol x = ''A'') (rows gain_loss_table)))
   \<and> Close (hd (sort_key Date (filter (\<lambda>x. Symbol x = ''A'') (rows gain_loss_table)))) \<noteq> 0
   \<and> (\<exists>ms. calculate_metrics gain_loss_table = Inr ms
            \<and> (\<forall>m\<in>set ms. Symbol m = ''A'' \<longrightarrow> Return_pct m = Fin 10))"
proof -
  let ?data = "sort_key Date (filter (\<lambda>x. Symbol x = ''A'') (rows gain_loss_table))"
  have d: "?data = [\<lparr>Symbol = ''A'', Date = (2024, 1, 1), Close = 100, Volume = 10\<rparr>,
                    \<lparr>Symbol = ''A'', Date = (2024, 1, 2), Close = 110, Volume = 30\<rparr>]"
    by (simp add: gain_loss_table_def)
  have h1: "2 \<le> length ?data" and h2: "Close (hd ?data) \<noteq> 0"
    by (simp_all add: d)
  from returnPct_matches_formula [OF refl h1 h2] h1 h2 show ?thesis
    by (auto simp: d)
qed

lemma calculate_volatility_total:
  assumes "rows df \<noteq> []"
  shows "\<exists>vs. calculate_volatility df = Inr vs"
  using assms by (simp add: calculate_volatility_def groupby_Nil_iff)

lemma volatility_of_Symbol: "Symbol (volatility_of g) = fst g"
  by (simp add: volatility_of_def Let_def)

lemma calculate_volatility_rows:
  assumes "calculate_volatility df = Inr vs"
  shows "distinct (map Symbol vs)"
    and "Symbol ` set vs = Symbol ` set (rows df)"
    and "\<forall>v\<in>set vs. v = volatility_of (Symbol v, filter (\<lambda>x. Symbol x = Symbol v) (rows df))"
    and "sorted_wrt (\<lambda>a b. rank (Volatility b) \<le> rank (Volatility a)) vs"
proof -
  let ?gs = "groupby Symbol (rows df)"
  let ?vol = "map volatility_of ?gs"
  from assms have vs: "vs = sort_values_desc Volatility ?vol"
    by (auto simp: calculate_volatility_def Let_def split: if_splits)
  have keys: "map Symbol ?vol = map fst ?gs"
    by (simp add: volatility_of_Symbol)
  then have "distinct (map Symbol ?vol)" by (simp only: groupby_distinct)
  then show "distinct (map Symbol vs)" unfolding vs by (rule distinct_sort_values_desc)
  have "Symbol ` set ?vol = fst ` set ?gs"
    by (simp add: image_image volatility_of_Symbol)
  then show "Symbol ` set vs = Symbol ` set (rows df)"
    by (simp only: vs set_sort_values_desc groupby_key_set)
  show "\<forall>v\<in>set vs. v = volatility_of (Symbol v, filter (\<lambda>x. Symbol x = Symbol v) (rows df))"
  proof
    fix v assume "v \<in> set vs"
    then have "v \<in> set ?vol" by (simp add: vs set_sort_values_desc)
    then obtain g where g: "g \<in> set ?gs" "v = volatility_of g" by auto
    then have "fst g = Symbol v" by (simp add: volatility_of_Symbol)
    moreover have "snd g = filter (\<lambda>x. Symbol x = fst g) (rows df)"
      using g(1) by (rule groupby_member(1))
    ultimately have "g = (Symbol v, filter (\<lambda>x. Symbol x = Symbol v) (rows df))"
      by (metis prod.collapse)
    with g(2) show "v = volatility_of (Symbol v, filter (\<lambda>x. Symbol x = Symbol v) (rows df))"
      by simp
  qed
  show "sorted_wrt (\<lambda>a b. rank (Volatility b) \<le> rank (Volatility a)) vs"
    unfolding vs by (rule sorted_sort_values_desc)
qed

lemma sorted_rank_defined:
  assumes "sorted_wrt (\<lambda>a b. rank (col b) \<le> rank (col a)) xs"
  shows "sorted_wrt (\<lambda>a b. fl_le (col b) (col a)) (filter (\<lambda>x. col x \<noteq> NaN) xs)"
proof -
  have "sorted_wrt (\<lambda>a b. rank (col b) \<le> rank (col a)) (filter (\<lambda>x. col x \<noteq> NaN) xs)"
    using assms by (rule sorted_wrt_filter)
  then show ?thesis
    by (rule sorted_wrt_mono_rel [rotated]) (simp add: fl_le_rank)
qed

section \<open>The order of the ranked outputs\<close>

lemma sort_values_desc_NaN_last:
  "sort_values_desc col xs = filter (\<lambda>x. col x \<noteq> NaN) (sort_values_desc col xs)
                               @ filter (\<lambda>x. col x = NaN) (sort_values_desc col xs)"
proof -
  let ?A = "rev (sort_key (\<lambda>x. rank (col x)) (rev (filter (\<lambda>x. col x \<noteq> NaN) xs)))"
  let ?B = "filter (\<lambda>x. col x = NaN) xs"
  have 1: "filter (\<lambda>x. col x \<noteq> NaN) ?A = ?A" by (rule filter_True) simp
  have 2: "filter (\<lambda>x. col x \<noteq> NaN) ?B = []" by (rule filter_False) simp
  have 3: "filter (\<lambda>x. col x = NaN) ?A = []" by (rule filter_False) simp
  have 4: "filter (\<lambda>x. col x = NaN) ?B = ?B" by (rule filter_True) simp
  show ?thesis
    unfolding sort_values_desc_def filter_append 1 2 3 4 by simp
qed

lemma calculate_metrics_NaN_last:
  assumes "calculate_metrics df = Inr ms"
  shows "ms = filter (\<lambda>m. Return_pct m \<noteq> NaN) ms @ filter (\<lambda>m. Return_pct m = NaN) ms"
proof -
  from assms obtain result where "ms = sort_values_desc Return_pct result"
    by (auto simp: calculate_metrics_def split: sum.splits if_splits)
  then show ?thesis using sort_values_desc_NaN_last [of Return_pct result] by simp
qed

lemma calculate_volatility_NaN_last:
  assumes "calculate_volatility df = Inr vs"
  shows "vs = filter (\<lambda>v. Volatility v \<noteq> NaN) vs @ filter (\<lambda>v. Volatility v = NaN) vs"
proof -
  from assms have "vs = sort_values_desc Volatility (map volatility_of (groupby Symbol (rows df)))"
    by (auto simp: calculate_volatility_def Let_def split: if_splits)
  then show ?thesis
    using sort_values_desc_NaN_last [of Volatility "map volatility_of (groupby Symbol (rows df))"]
    by simp
qed

text \<open>
  Claim C9.  On a table with at least one row \<open>calculate_metrics\<close> and
  \<open>calculate_volatility\<close> both return rows.  The rows returned are exactly one for each
  symbol of the table, each as the loop computes it from the symbol's observations.  The
  rows whose \<open>Return (%)\<close>, respectively \<open>Volatility\<close>, is not not-a-number are in
  non-increasing order of that value, and the not-a-number rows come after them.
\<close>

theorem outputs_sorted_descending:
  "(rows df \<noteq> [] \<longrightarrow> (\<exists>ms. calculate_metrics df = Inr ms) \<and> (\<exists>vs. calculate_volatility df = Inr vs))
   \<and> (\<forall>ms. calculate_metrics df = Inr ms \<longrightarrow>
         distinct (map Symbol ms)
         \<and> Symbol ` set ms = Symbol ` set (rows df)
         \<and> (\<forall>m\<in>set ms. metrics_of (Symbol m, filter (\<lambda>x. Symbol x = Symbol m) (rows df)) = Inr m)
         \<and> sorted_wrt (\<lambda>a b. fl_le (Return_pct b) (Return_pct a)) (filter (\<lambda>m. Return_pct m \<noteq> NaN) ms)
         \<and> ms = filter (\<lambda>m. Return_pct m \<noteq> NaN) ms @ filter (\<lambda>m. Return_pct m = NaN) ms)
   \<and> (\<forall>vs. calculate_volatility df = Inr vs \<longrightarrow>
         distinct (map Symbol vs)
         \<and> Symbol ` set vs = Symbol ` set (rows df)
         \<and> (\<forall>v\<in>set vs. v = volatility_of (Symbol v, filter (\<lambda>x. Symbol x = Symbol v) (rows df)))
         \<and> sorted_wrt (\<lambda>a b. fl_le (Volatility b) (Volatility a)) (filter (\<lambda>v. Volatility v \<noteq> NaN) vs)
         \<and> vs = filter (\<lambda>v. Volatility v \<noteq> NaN) vs @ filter (\<lambda>v. Volatility v = NaN) vs)"
proof (intro conjI allI impI)
  assume "rows df \<noteq> []"
  then show "\<exists>ms. calculate_metrics df = Inr ms" by (rule calculate_metrics_total)
next
  assume "rows df \<noteq> []"
  then show "\<exists>vs. calculate_volatility df = Inr vs" by (rule calculate_volatility_total)
next
  fix ms assume ms: "calculate_metrics df = Inr ms"
  show "distinct (map Symbol ms)" by (rule calculate_metrics_rows(1) [OF ms])
  show "Symbol ` set ms = Symbol ` set (rows df)" by (rule calculate_metrics_rows(2) [OF ms])
  show "\<forall>m\<in>set ms. metrics_of (Symbol m, filter (\<lambda>x. Symbol x = Symbol m) (rows df)) = Inr m"
    by (rule calculate_metrics_rows(3) [OF ms])
  show "sorted_wrt (\<lambda>a b. fl_le (Return_pct b) (Return_pct a)) (filter (\<lambda>m. Return_pct m \<noteq> NaN) ms)"
    by (rule sorted_rank_defined [OF calculate_metrics_rows(4) [OF ms]])
  show "ms = filter (\<lambda>m. Return_pct m \<noteq> NaN) ms @ filter (\<lambda>m. Return_pct m = NaN) ms"
    by (rule calculate_metrics_NaN_last [OF ms])
next
  fix vs assume vs: "calculate_volatility df = Inr vs"
  show "distinct (map Symbol vs)" by (rule calculate_volatility_rows(1) [OF vs])
  show "Symbol ` set vs = Symbol ` set (rows df)" by (rule calculate_volatility_rows(2) [OF vs])
  show "\<forall>v\<in>set vs. v = volatility_of (Symbol v, filter (\<lambda>x. Symbol x = Symbol v) (rows df))"
    by (rule calculate_volatility_rows(3) [OF vs])
  show "sorted_wrt (\<lambda>a b. fl_le (Volatility b) (Volatility a)) (filter (\<lambda>v. Volatility v \<noteq> NaN) vs)"
    by (rule sorted_rank_defined [OF calculate_volatility_rows(4) [OF vs]])
  show "vs = filter (\<lambda>v. Volatility v \<noteq> NaN) vs @ filter (\<lambda>v. Volatility v = NaN) vs"
    by (rule calculate_volatility_NaN_last [OF vs])
qed

text \<open>
  The claim at the three-symbol table: the returns 500, 300, 0 and the volatilities 1, 0
  come out in this order, the not-a-number volatility of \<open>N\<close> last.
\<close>

theorem outputs_sorted_descending_witness:
  "rows ranking_table \<noteq> []
   \<and> (\<exists>ms. calculate_metrics ranking_table = Inr ms
          \<and> map Symbol ms = [''H'', ''C'', ''N'']
          \<and> map Return_pct ms = [Fin 500, Fin 300, Fin 0]
          \<and> sorted_wrt (\<lambda>a b. fl_le (Return_pct b) (Return_pct a))
                (filter (\<lambda>m. Return_pct m \<noteq> NaN) ms))
   \<and> (\<exists>vs. calculate_volatility ranking_table = Inr vs
          \<and> map Symbol vs = [''H'', ''C'', ''N'']
          \<and> map Volatility vs = [Fin 1, Fin 0, NaN]
          \<and> sorted_wrt (\<lambda>a b. fl_le (Volatility b) (Volatility a))
                (filter (\<lambda>v. Volatility v \<noteq> NaN) vs))"
proof -
  let ?ms = "[\<lparr>Symbol = ''H'', Return_pct = Fin 500, Avg_Price = Fin 4, Avg_Volume = Fin 10\<rparr>,
              \<lparr>Symbol = ''C'', Return_pct = Fin 300, Avg_Price = Fin (14 / 3), Avg_Volume = Fin 10\<rparr>,
              \<lparr>Symbol = ''N'', Return_pct = Fin 0, Avg_Price = Fin 50, Avg_Volume = Fin 10\<rparr>]"
  let ?vs = "[\<lparr>Symbol = ''H'', Volatility = Fin 1\<rparr>,
              \<lparr>Symbol = ''C'', Volatility = Fin 0\<rparr>,
              \<lparr>Symbol = ''N'', Volatility = NaN\<rparr>]"
  have ms: "calculate_metrics ranking_table = Inr ?ms"
    by (simp add: calculate_metrics_def groupby_def metrics_of_def sort_values_desc_def
        pd_mean_def fsub_def Let_def ranking_table_def)
  have vs: "calculate_volatility ranking_table = Inr ?vs"
    by (simp add: calculate_volatility_def groupby_def volatility_of_def sort_values_desc_def
        pct_change_def pd_std_def fsub_def Let_def ranking_table_def)
  have ne: "rows ranking_table \<noteq> []" by (simp add: ranking_table_def)
  note all = outputs_sorted_descending [of ranking_table]
  from all ms have 1: "sorted_wrt (\<lambda>a b. fl_le (Return_pct b) (Return_pct a))
      (filter (\<lambda>m. Return_pct m \<noteq> NaN) ?ms)"
    by blast
  from all vs have 2: "sorted_wrt (\<lambda>a b. fl_le (Volatility b) (Volatility a))
      (filter (\<lambda>v. Volatility v \<noteq> NaN) ?vs)"
    by blast
  have "\<exists>ms. calculate_metrics ranking_table = Inr ms
          \<and> map Symbol ms = [''H'', ''C'', ''N'']
          \<and> map Return_pct ms = [Fin 500, Fin 300, Fin 0]
          \<and> sorted_wrt (\<lambda>a b. fl_le (Return_pct b) (Return_pct a))
                (filter (\<lambda>m. Return_pct m \<noteq> NaN) ms)"
  proof (intro exI [of _ ?ms] conjI)
    show "calculate_metrics ranking_table = Inr ?ms" by (rule ms)
    show "sorted_wrt (\<lambda>a b. fl_le (Return_pct b) (Return_pct a))
      (filter (\<lambda>m. Return_pct m \<noteq> NaN) ?ms)" by (rule 1)
  qed simp_all
  moreover have "\<exists>vs. calculate_volatility ranking_table = Inr vs
          \<and> map Symbol vs = [''H'', ''C'', ''N'']
          \<and> map Volatility vs = [Fin 1, Fin 0, NaN]
          \<and> sorted_wrt (\<lambda>a b. fl_le (Volatility b) (Volatility a))
                (filter (\<lambda>v. Volatility v \<noteq> NaN) vs)"
  proof (intro exI [of _ ?vs] conjI)
    show "calculate_volatility ranking_table = Inr ?vs" by (rule vs)
    show "sorted_wrt (\<lambda>a b. fl_le (Volatility b) (Volatility a))
      (filter (\<lambda>v. Volatility v \<noteq> NaN) ?vs)" by (rule 2)
  qed simp_all
  ultimately show ?thesis using ne by (intro conjI)
qed

section \<open>A first close of zero\<close>

lemma rank_le_NaN: "rank r \<le> rank NaN \<Longrightarrow> r = NaN"
  by (cases r) simp_all

lemma rank_le_NInf: "rank r \<le> rank NInf \<Longrightarrow> r = NaN \<or> r = NInf"
  by (cases r) simp_all

lemma rank_ge_PInf: "rank PInf \<le> rank r \<Longrightarrow> r = PInf"
  by (cases r) simp_all

lemma zero_start_value:
  "fmul (fdiv (fsub (Fin c) (Fin 0)) (Fin 0)) (Fin 100)
     = (if c = 0 then NaN else if 0 < c then PInf else NInf)"
  by (simp add: fsub_def signed_inf_def)

text \<open>
  A first close of zero with a positive last close gives plus infinity, not
  not-a-number, and the row comes first in the descending order.
\<close>

theorem zero_first_close_counterexample:
  "calculate_metrics zero_start_table =
     Inr [\<lparr>Symbol = ''Z'', Return_pct = PInf, Avg_Price = Fin (5 / 2), Avg_Volume = Fin 20\<rparr>,
          \<lparr>Symbol = ''B'', Return_pct = Fin 10, Avg_Price = Fin 105, Avg_Volume = Fin 15\<rparr>]"
  by (simp add: calculate_metrics_def groupby_def metrics_of_def sort_values_desc_def
      pd_mean_def fsub_def signed_inf_def Let_def zero_start_table_def)

text \<open>
  Claim C4, as the code has it.  For a symbol whose first close is zero
  \<open>calculate_metrics\<close> raises nothing and returns one row for the symbol.  Its
  \<open>Return (%)\<close> is not-a-number when the last close is zero too, plus infinity when the
  last close is positive and minus infinity when it is negative.  A not-a-number row has
  only not-a-number rows after it, a minus-infinity row only minus-infinity and
  not-a-number rows, and a plus-infinity row has only plus-infinity rows before it.
\<close>

theorem zero_first_close_return:
  assumes "data = sort_key Date (filter (\<lambda>x. Symbol x = s) (rows df))"
    and "data \<noteq> []"
    and "Close (hd data) = 0"
  shows "\<exists>ms. calculate_metrics df = Inr ms
            \<and> (\<exists>!m. m \<in> set ms \<and> Symbol m = s)
            \<and> (\<forall>m pre post. ms = pre @ m # post \<and> Symbol m = s \<longrightarrow>
                  Return_pct m = (if Close (last data) = 0 then NaN
                                  else if 0 < Close (last data) then PInf else NInf)
                  \<and> (Close (last data) = 0 \<longrightarrow> (\<forall>r\<in>set post. Return_pct r = NaN))
                  \<and> (Close (last data) < 0 \<longrightarrow>
                        (\<forall>r\<in>set post. Return_pct r = NaN \<or> Return_pct r = NInf))
                  \<and> (0 < Close (last data) \<longrightarrow> (\<forall>r\<in>set pre. Return_pct r = PInf)))"
proof -
  let ?c = "Close (last data)"
  have "filter (\<lambda>x. Symbol x = s) (rows df) \<noteq> []"
    using assms(1,2) by auto
  then obtain x where x: "x \<in> set (rows df)" "Symbol x = s"
    by (metis (mono_tags, lifting) filter_False)
  then have "rows df \<noteq> []" by auto
  then obtain ms where ms: "calculate_metrics df = Inr ms"
    using calculate_metrics_total by blast
  have "s \<in> Symbol ` set ms"
    using x calculate_metrics_rows(2) [OF ms] by blast
  then have uniq: "\<exists>!m. m \<in> set ms \<and> Symbol m = s"
    using calculate_metrics_rows(1) [OF ms] by (rule unique_row [rotated])
  have rest: "Return_pct m = (if ?c = 0 then NaN else if 0 < ?c then PInf else NInf)
        \<and> (?c = 0 \<longrightarrow> (\<forall>r\<in>set post. Return_pct r = NaN))
        \<and> (?c < 0 \<longrightarrow> (\<forall>r\<in>set post. Return_pct r = NaN \<or> Return_pct r = NInf))
        \<and> (0 < ?c \<longrightarrow> (\<forall>r\<in>set pre. Return_pct r = PInf))"
    if split: "ms = pre @ m # post" and sym: "Symbol m = s" for m pre post
  proof -
    have "m \<in> set ms" by (simp add: split)
    then have "metrics_of (s, filter (\<lambda>x. Symbol x = s) (rows df)) = Inr m"
      using calculate_metrics_rows(3) [OF ms] sym by blast
    then have val: "Return_pct m = (if ?c = 0 then NaN else if 0 < ?c then PInf else NInf)"
      using assms(3) by (simp add: metrics_of_Inr(2) assms(1) [symmetric] zero_start_value)
    have sorted: "sorted_wrt (\<lambda>a b. rank (Return_pct b) \<le> rank (Return_pct a)) (pre @ m # post)"
      using calculate_metrics_rows(4) [OF ms] by (simp only: split)
    then have after: "\<forall>r\<in>set post. rank (Return_pct r) \<le> rank (Return_pct m)"
      and before: "\<forall>r\<in>set pre. rank (Return_pct m) \<le> rank (Return_pct r)"
      by (auto simp: sorted_wrt_append)
    have "\<forall>r\<in>set post. Return_pct r = NaN" if "?c = 0"
    proof -
      have "Return_pct m = NaN" using val that by simp
      with after show ?thesis by (metis rank_le_NaN)
    qed
    moreover have "\<forall>r\<in>set post. Return_pct r = NaN \<or> Return_pct r = NInf" if "?c < 0"
    proof -
      have "Return_pct m = NInf" using val that by simp
      with after show ?thesis by (metis rank_le_NInf)
    qed
    moreover have "\<forall>r\<in>set pre. Return_pct r = PInf" if "0 < ?c"
    proof -
      have "Return_pct m = PInf" using val that by simp
      with before show ?thesis by (metis rank_ge_PInf)
    qed
    ultimately show ?thesis using val by blast
  qed
  from ms uniq rest show ?thesis by blast
qed

text \<open>The amended claim at the table whose symbol \<open>Z\<close> starts at zero.\<close>

theorem zero_first_close_return_witness:
  "sort_key Date (filter (\<lambda>x. Symbol x = ''Z'') (rows zero_start_table)) \<noteq> []
   \<and> Close (hd (sort_key Date (filter (\<lambda>x. Symbol x = ''Z'') (rows zero_start_table)))) = 0
   \<and> (\<exists>ms. calculate_metrics zero_start_table = Inr ms
          \<and> (\<forall>m pre post. ms = pre @ m # post \<and> Symbol m = ''Z'' \<longrightarrow>
                Return_pct m = PInf \<and> (\<forall>r\<in>set pre. Return_pct r = PInf)))"
proof -
  let ?data = "sort_key Date (filter (\<lambda>x. Symbol x = ''Z'') (rows zero_start_table))"
  have d: "?data = [\<lparr>Symbol = ''Z'', Date = (2024, 1, 1), Close = 0, Volume = 10\<rparr>,
                    \<lparr>Symbol = ''Z'', Date = (2024, 1, 2), Close = 5, Volume = 30\<rparr>]"
    by (simp add: zero_start_table_def)
  have h1: "?data \<noteq> []" and h2: "Close (hd ?data) = 0" and h3: "Close (last ?data) = 5"
    by (simp_all add: d)
  from zero_first_close_return [OF refl h1 h2, unfolded h3] obtain ms where
    all: "calculate_metrics zero_start_table = Inr ms
            \<and> (\<exists>!m. m \<in> set ms \<and> Symbol m = ''Z'')
            \<and> (\<forall>m pre post. ms = pre @ m # post \<and> Symbol m = ''Z'' \<longrightarrow>
                  Return_pct m = (if (5::real) = 0 then NaN else if 0 < (5::real) then PInf else NInf)
                  \<and> ((5::real) = 0 \<longrightarrow> (\<forall>r\<in>set post. Return_pct r = NaN))
                  \<and> ((5::real) < 0 \<longrightarrow>
                        (\<forall>r\<in>set post. Return_pct r = NaN \<or> Return_pct r = NInf))
                  \<and> (0 < (5::real) \<longrightarrow> (\<forall>r\<in>set pre. Return_pct r = PInf)))" ..
  from all have ms: "calculate_metrics zero_start_table = Inr ms" by (rule conjunct1)
  have r: "Return_pct m = PInf \<and> (\<forall>r\<in>set pre. Return_pct r = PInf)"
    if "ms = pre @ m # post \<and> Symbol m = ''Z''" for m pre post
    using all [THEN conjunct2, THEN conjunct2, rule_format, where m = m and pre = pre and post = post]
      that by simp
  show ?thesis
  proof (intro conjI exI [of _ ms] allI impI)
    show "?data \<noteq> []" by (rule h1)
    show "Close (hd ?data) = 0" by (rule h2)
    show "calculate_metrics zero_start_table = Inr ms" by (rule ms)
  next
    fix m pre post
    assume "ms = pre @ m # post \<and> Symbol m = ''Z''"
    then show "Return_pct m = PInf" by (rule r [THEN conjunct1])
  next
    fix m pre post
    assume "ms = pre @ m # post \<and> Symbol m = ''Z''"
    then show "\<forall>r\<in>set pre. Return_pct r = PInf" by (rule r [THEN conjunct2])
  qed
qed

section \<open>Volatility and the sample standard deviation\<close>










lemma volatility_of_value:
  "Volatility (volatility_of g) = pd_std (pct_change (map Close (sort_key Date (snd g))))"
  by (simp add: volatility_of_def Let_def)

lemma volatility_row:
  assumes "x \<in> set (rows df)" and "Symbol x = s"
    and "data = sort_key Date (filter (\<lambda>x. Symbol x = s) (rows df))"
  shows "\<exists>vs. calculate_volatility df = Inr vs
            \<and> (\<exists>!v. v \<in> set vs \<and> Symbol v = s)
            \<and> (\<forall>v\<in>set vs. Symbol v = s \<longrightarrow> Volatility v = pd_std (pct_change (map Close data)))"
proof -
  have "rows df \<noteq> []" using assms(1) by auto
  then obtain vs where vs: "calculate_volatility df = Inr vs"
    using calculate_volatility_total by blast
  have "s \<in> Symbol ` set vs"
    using assms(1,2) calculate_volatility_rows(2) [OF vs] by blast
  then have uniq: "\<exists>!v. v \<in> set vs \<and> Symbol v = s"
    using calculate_volatility_rows(1) [OF vs] by (rule unique_row [rotated])
  have "Volatility v = pd_std (pct_change (map Close data))"
    if "v \<in> set vs" "Symbol v = s" for v
  proof -
    have "v = volatility_of (s, filter (\<lambda>x. Symbol x = s) (rows df))"
      using calculate_volatility_rows(3) [OF vs] that by blast
    then show ?thesis
      by (simp add: volatility_of_value assms(3))
  qed
  with vs uniq show ?thesis by blast
qed

lemma group_nonempty:
  assumes "data = sort_key Date (filter (\<lambda>x. Symbol x = s) (rows df))" and "data \<noteq> []"
  shows "\<exists>x. x \<in> set (rows df) \<and> Symbol x = s"
proof -
  have "filter (\<lambda>x. Symbol x = s) (rows df) \<noteq> []"
    using assms by auto
  then show ?thesis
    by (metis (mono_tags, lifting) filter_False)
qed




section \<open>A constant close\<close>

lemma fsum_replicate_zero: "fsum (replicate k (Fin 0)) = Fin 0"
  by (induction k) simp_all

lemma pd_std_zeros: "2 \<le> k \<Longrightarrow> pd_std (NaN # replicate k (Fin 0)) = Fin 0"
  by (simp add: pd_std_def fsum_replicate_zero fsub_def Let_def)

lemma zip_constant: "zip (c # replicate k c) (replicate k c) = replicate k (c, c)"
  by (induction k) simp_all

lemma pct_change_constant:
  assumes "c \<noteq> 0"
  shows "pct_change (replicate (Suc k) c) = NaN # replicate k (Fin 0)"
proof -
  have "pct_change (replicate (Suc k) c)
      = NaN # map (\<lambda>(prev, cur). fsub (fdiv (Fin cur) (Fin prev)) (Fin 1))
                (zip (c # replicate k c) (replicate k c))"
    by (simp add: pct_change_def)
  also have "\<dots> = NaN # map (\<lambda>(prev, cur). fsub (fdiv (Fin cur) (Fin prev)) (Fin 1))
                          (replicate k (c, c))"
    by (simp only: zip_constant)
  also have "\<dots> = NaN # replicate k (Fin 0)"
    using assms by (simp add: fsub_def)
  finally show ?thesis .
qed

lemma constant_column:
  assumes "\<forall>x\<in>set data. Close x = c"
  shows "map Close data = replicate (length data) c"
  using assms by (induction data) simp_all

text \<open>With two observations there is a single price change, and no deviation of one value.\<close>

theorem constant_close_counterexample:
  "calculate_volatility flat_pair_table = Inr [\<lparr>Symbol = ''C'', Volatility = NaN\<rparr>]"
  by (simp add: calculate_volatility_def groupby_def volatility_of_def sort_values_desc_def
      pct_change_def pd_std_def fsub_def Let_def flat_pair_table_def)

text \<open>
  Claim C6, as the code has it.  A symbol with at least three observations whose close is
  the same nonzero constant on all its dates has volatility exactly 0 in the output of
  \<open>calculate_volatility\<close>.
\<close>

theorem constant_close_volatility:
  assumes "data = sort_key Date (filter (\<lambda>x. Symbol x = s) (rows df))"
    and "3 \<le> length data"
    and "\<forall>x\<in>set data. Close x = c"
    and "c \<noteq> 0"
  shows "\<exists>vs. calculate_volatility df = Inr vs
            \<and> (\<exists>!v. v \<in> set vs \<and> Symbol v = s)
            \<and> (\<forall>v\<in>set vs. Symbol v = s \<longrightarrow> Volatility v = Fin 0)"
proof -
  have ne: "data \<noteq> []" using assms(2) by auto
  from group_nonempty [OF assms(1) ne] obtain x where x: "x \<in> set (rows df)" "Symbol x = s"
    by blast
  obtain k where k: "length data = Suc k" "2 \<le> k"
    using assms(2) by (cases "length data") auto
  have "map Close data = replicate (Suc k) c"
    using constant_column [OF assms(3)] k(1) by simp
  then have "pd_std (pct_change (map Close data)) = Fin 0"
    using pct_change_constant [OF assms(4), of k] pd_std_zeros [OF k(2)] by (simp only:)
  with volatility_row [OF x assms(1)] show ?thesis by simp
qed

text \<open>The amended claim at symbol \<open>C\<close> of the three-day table.\<close>

theorem constant_close_volatility_witness:
  "3 \<le> length (sort_key Date (filter (\<lambda>x. Symbol x = ''C'') (rows flat_table)))
   \<and> map Close (sort_key Date (filter (\<lambda>x. Symbol x = ''C'') (rows flat_table))) = [100, 100, 100]
   \<and> (100::real) \<noteq> 0
   \<and> (\<exists>vs. calculate_volatility flat_table = Inr vs
          \<and> (\<forall>v\<in>set vs. Symbol v = ''C'' \<longrightarrow> Volatility v = Fin 0))"
proof -
  let ?data = "sort_key Date (filter (\<lambda>x. Symbol x = ''C'') (rows flat_table))"
  have d: "?data = [\<lparr>Symbol = ''C'', Date = (2024, 1, 1), Close = 100, Volume = 10\<rparr>,
                    \<lparr>Symbol = ''C'', Date = (2024, 1, 2), Close = 100, Volume = 10\<rparr>,
                    \<lparr>Symbol = ''C'', Date = (2024, 1, 3), Close = 100, Volume = 10\<rparr>]"
    by (simp add: flat_table_def)
  have h1: "3 \<le> length ?data" and h2: "\<forall>x\<in>set ?data. Close x = 100"
    and h3: "(100::real) \<noteq> 0"
    by (simp_all add: d)
  from constant_close_volatility [OF refl h1 h2 h3] obtain vs where
    "calculate_volatility flat_table = Inr vs"
    "\<forall>v\<in>set vs. Symbol v = ''C'' \<longrightarrow> Volatility v = Fin 0"
    by (elim exE conjE)
  moreover have "map Close ?data = [100, 100, 100]" by (simp add: d)
  ultimately show ?thesis using h1 h3 by (intro conjI exI [of _ vs])
qed

section \<open>The rows of the monthly performance\<close>

lemma insort_key_map:
  "insort_key h (g x) (map g ys) = map g (insort_key (\<lambda>y. h (g y)) x ys)"
  by (induction ys) simp_all

lemma sort_key_map: "sort_key h (map g xs) = map g (sort_key (\<lambda>y. h (g y)) xs)"
  by (induction xs) (simp_all add: insort_key_map)

lemma zip_map_self: "zip (map f xs) xs = map (\<lambda>x. (f x, x)) xs"
  by (induction xs) simp_all

lemma monthly_of_total: "snd g \<noteq> [] \<Longrightarrow> \<exists>m. monthly_of g = Inr m"
proof -
  assume "snd g \<noteq> []"
  then have "sort_key (\<lambda>r. Date (snd r)) (snd g) \<noteq> []"
    by (metis length_sort length_0_conv)
  then show ?thesis
    by (auto simp: monthly_of_def Let_def split: list.splits)
qed

lemma monthly_of_Inr:
  assumes "monthly_of g = Inr m"
  shows "(Month m, Symbol m) = fst g"
    and "Return m = fmul (fdiv (fsub (Fin (Close (snd (last (sort_key (\<lambda>r. Date (snd r)) (snd g))))))
                                     (Fin (Close (snd (hd (sort_key (\<lambda>r. Date (snd r)) (snd g)))))))
                               (Fin (Close (snd (hd (sort_key (\<lambda>r. Date (snd r)) (snd g)))))))
                         (Fin 100)"
  using assms by (auto simp: monthly_of_def Let_def split: list.splits)

lemma month_return_value:
  "fmul (fdiv (fsub (Fin c1) (Fin c0)) (Fin c0)) (Fin 100)
     = (if c0 = 0 then signed_inf c1 else Fin ((c1 - c0) / c0 * 100))"
  by (simp add: fsub_def signed_inf_def)

lemma monthly_rows:
  obtains ms where "fst (calculate_monthly_performance df) = Inr ms"
    and "distinct (map (\<lambda>m. (Month m, Symbol m)) ms)"
    and "(\<lambda>m. (Month m, Symbol m)) ` set ms = (\<lambda>x. (to_period_M (Date x), Symbol x)) ` set (rows df)"
    and "\<And>m data. m \<in> set ms \<Longrightarrow>
           data = sort_key Date (filter (\<lambda>x. to_period_M (Date x) = Month m \<and> Symbol x = Symbol m) (rows df))
           \<Longrightarrow> data \<noteq> [] \<and>
               Return m = (if Close (hd data) = 0 then signed_inf (Close (last data))
                           else Fin ((Close (last data) - Close (hd data)) / Close (hd data) * 100))"
proof -
  let ?tag = "\<lambda>x. (to_period_M (Date x), x)"
  let ?key = "\<lambda>r::period \<times> observation. (fst r, Symbol (snd r))"
  let ?keyed = "map ?tag (rows df)"
  let ?gs = "groupby ?key ?keyed"
  have res: "fst (calculate_monthly_performance df) = collect monthly_of ?gs"
    by (simp add: calculate_monthly_performance_def Let_def zip_map_self)
  have "\<forall>g\<in>set ?gs. \<exists>m. monthly_of g = Inr m"
  proof
    fix g assume "g \<in> set ?gs"
    then have "snd g \<noteq> []" by (rule groupby_member(2))
    then show "\<exists>m. monthly_of g = Inr m" by (rule monthly_of_total)
  qed
  then obtain ms where ms: "collect monthly_of ?gs = Inr ms"
    using collect_total by blast
  have keys: "map (\<lambda>m. (Month m, Symbol m)) ms = map fst ?gs"
    using ms by (rule collect_map_key) (simp add: monthly_of_Inr(1))
  have 1: "distinct (map (\<lambda>m. (Month m, Symbol m)) ms)"
    by (simp only: keys groupby_distinct)
  have "set (map (\<lambda>m. (Month m, Symbol m)) ms) = set (map fst ?gs)"
    by (simp only: keys)
  then have 2: "(\<lambda>m. (Month m, Symbol m)) ` set ms
      = (\<lambda>x. (to_period_M (Date x), Symbol x)) ` set (rows df)"
    by (simp add: groupby_key_set image_image)
  have 3: "data \<noteq> [] \<and>
      Return m = (if Close (hd data) = 0 then signed_inf (Close (last data))
                  else Fin ((Close (last data) - Close (hd data)) / Close (hd data) * 100))"
    if m: "m \<in> set ms"
      and data: "data = sort_key Date
        (filter (\<lambda>x. to_period_M (Date x) = Month m \<and> Symbol x = Symbol m) (rows df))"
    for m data
  proof -
    from collect_member [OF ms m] obtain g where g: "g \<in> set ?gs" "monthly_of g = Inr m"
      by blast
    have fg: "fst g = (Month m, Symbol m)"
      using g(2) by (simp add: monthly_of_Inr(1))
    have "snd g = filter (\<lambda>r. ?key r = fst g) ?keyed"
      using g(1) by (rule groupby_member(1))
    also have "\<dots> = map ?tag
        (filter (\<lambda>x. to_period_M (Date x) = Month m \<and> Symbol x = Symbol m) (rows df))"
      by (simp add: fg filter_map comp_def)
    finally have "sort_key (\<lambda>r. Date (snd r)) (snd g) = map ?tag data"
      by (simp add: sort_key_map data)
    moreover have "sort_key (\<lambda>r. Date (snd r)) (snd g) \<noteq> []"
      using groupby_member(2) [OF g(1)] by (metis length_sort length_0_conv)
    ultimately have grp: "sort_key (\<lambda>r. Date (snd r)) (snd g) = map ?tag data" and ne: "data \<noteq> []"
      by auto
    have "Return m = fmul (fdiv (fsub (Fin (Close (last data))) (Fin (Close (hd data))))
                               (Fin (Close (hd data)))) (Fin 100)"
      using ne by (simp add: monthly_of_Inr(2) [OF g(2)] grp hd_map last_map)
    with ne show ?thesis by (simp only: month_return_value) simp
  qed
  from res ms have "fst (calculate_monthly_performance df) = Inr ms" by simp
  then show ?thesis using 1 2 3 by (rule that)
qed

text \<open>
  A single observation whose close is zero: the return of its month is 0/0, not 0.
\<close>

theorem monthly_single_zero_counterexample:
  "fst (calculate_monthly_performance zero_single_table) =
     Inr [\<lparr>Symbol = ''Z'', Month = (2024, 1), Return = NaN\<rparr>]"
  by (simp add: calculate_monthly_performance_def groupby_def monthly_of_def to_period_M_def
      fsub_def signed_inf_def Let_def zero_single_table_def)

text \<open>
  Claim C7, as the code has it.  \<open>calculate_monthly_performance\<close> raises nothing and
  returns exactly one row for each pair of a calendar month and a symbol with an
  observation in that month.  With a nonzero first close the row's return is
  \<open>(last - first) / first * 100\<close> over the observations of the pair sorted by date.  A
  pair with a single observation yields 0 when that close is nonzero, and not-a-number
  when it is zero.  Closes of 100 and 120 in January and of 120 and 90 in February give
  the monthly returns 20 and -25.
\<close>

theorem monthly_performance_rows:
  "(\<exists>ms. fst (calculate_monthly_performance df) = Inr ms
      \<and> distinct (map (\<lambda>m. (Month m, Symbol m)) ms)
      \<and> (\<lambda>m. (Month m, Symbol m)) ` set ms
            = (\<lambda>x. (to_period_M (Date x), Symbol x)) ` set (rows df)
      \<and> (\<forall>m\<in>set ms. \<forall>data.
            data = sort_key Date
              (filter (\<lambda>x. to_period_M (Date x) = Month m \<and> Symbol x = Symbol m) (rows df)) \<longrightarrow>
            (Close (hd data) \<noteq> 0 \<longrightarrow>
               Return m = Fin ((Close (last data) - Close (hd data)) / Close (hd data) * 100))
            \<and> (length data = 1 \<and> Close (hd data) \<noteq> 0 \<longrightarrow> Return m = Fin 0)
            \<and> (length data = 1 \<and> Close (hd data) = 0 \<longrightarrow> Return m = NaN)))
   \<and> fst (calculate_monthly_performance two_month_table) =
         Inr [\<lparr>Symbol = ''S'', Month = (2024, 1), Return = Fin 20\<rparr>,
              \<lparr>Symbol = ''S'', Month = (2024, 2), Return = Fin (- 25)\<rparr>]"
proof (rule conjI)
  let ?rows = "\<lambda>ms. fst (calculate_monthly_performance df) = Inr ms
      \<and> distinct (map (\<lambda>m. (Month m, Symbol m)) ms)
      \<and> (\<lambda>m. (Month m, Symbol m)) ` set ms
            = (\<lambda>x. (to_period_M (Date x), Symbol x)) ` set (rows df)
      \<and> (\<forall>m\<in>set ms. \<forall>data.
            data = sort_key Date
              (filter (\<lambda>x. to_period_M (Date x) = Month m \<and> Symbol x = Symbol m) (rows df)) \<longrightarrow>
            (Close (hd data) \<noteq> 0 \<longrightarrow>
               Return m = Fin ((Close (last data) - Close (hd data)) / Close (hd data) * 100))
            \<and> (length data = 1 \<and> Close (hd data) \<noteq> 0 \<longrightarrow> Return m = Fin 0)
            \<and> (length data = 1 \<and> Close (hd data) = 0 \<longrightarrow> Return m = NaN))"
  show "\<exists>ms. ?rows ms"
  proof (rule monthly_rows [of df])
  fix ms
  assume ms: "fst (calculate_monthly_performance df) = Inr ms"
    and d: "distinct (map (\<lambda>m. (Month m, Symbol m)) ms)"
    and k: "(\<lambda>m. (Month m, Symbol m)) ` set ms
              = (\<lambda>x. (to_period_M (Date x), Symbol x)) ` set (rows df)"
    and r: "\<And>m data. m \<in> set ms \<Longrightarrow>
           data = sort_key Date
             (filter (\<lambda>x. to_period_M (Date x) = Month m \<and> Symbol x = Symbol m) (rows df))
           \<Longrightarrow> data \<noteq> [] \<and>
               Return m = (if Close (hd data) = 0 then signed_inf (Close (last data))
                           else Fin ((Close (last data) - Close (hd data)) / Close (hd data) * 100))"
  have "(Close (hd data) \<noteq> 0 \<longrightarrow>
           Return m = Fin ((Close (last data) - Close (hd data)) / Close (hd data) * 100))
        \<and> (length data = 1 \<and> Close (hd data) \<noteq> 0 \<longrightarrow> Return m = Fin 0)
        \<and> (length data = 1 \<and> Close (hd data) = 0 \<longrightarrow> Return m = NaN)"
    if "m \<in> set ms"
      and "data = sort_key Date
        (filter (\<lambda>x. to_period_M (Date x) = Month m \<and> Symbol x = Symbol m) (rows df))"
    for m data
  proof -
    from r [OF that] have ne: "data \<noteq> []"
      and val: "Return m = (if Close (hd data) = 0 then signed_inf (Close (last data))
                  else Fin ((Close (last data) - Close (hd data)) / Close (hd data) * 100))"
      by simp_all
    have single: "last data = hd data" if "length data = 1"
      using that by (cases data) simp_all
    show ?thesis
      using val single by (auto simp: signed_inf_def)
  qed
  with ms d k have "?rows ms"
    by (intro conjI ballI allI impI) blast+
  then show "\<exists>ms. ?rows ms" ..
  qed
next
  show "fst (calculate_monthly_performance two_month_table) =
         Inr [\<lparr>Symbol = ''S'', Month = (2024, 1), Return = Fin 20\<rparr>,
              \<lparr>Symbol = ''S'', Month = (2024, 2), Return = Fin (- 25)\<rparr>]"
    by (simp add: calculate_monthly_performance_def groupby_def monthly_of_def to_period_M_def
        fsub_def Let_def two_month_table_def)
qed

text \<open>The claim at the one-row table: a month with its single observation.\<close>

theorem monthly_performance_rows_witness:
  "\<exists>ms. fst (calculate_monthly_performance zero_single_table) = Inr ms
      \<and> (\<lambda>m. (Month m, Symbol m)) ` set ms = {((2024, 1), ''Z'')}
      \<and> (\<forall>m\<in>set ms. Return m = NaN)"
proof -
  let ?df = zero_single_table
  from monthly_performance_rows [of ?df] obtain ms where
    ms: "fst (calculate_monthly_performance ?df) = Inr ms"
    and k: "(\<lambda>m. (Month m, Symbol m)) ` set ms
              = (\<lambda>x. (to_period_M (Date x), Symbol x)) ` set (rows ?df)"
    and r: "\<forall>m\<in>set ms. \<forall>data.
            data = sort_key Date
              (filter (\<lambda>x. to_period_M (Date x) = Month m \<and> Symbol x = Symbol m) (rows ?df)) \<longrightarrow>
            (Close (hd data) \<noteq> 0 \<longrightarrow>
               Return m = Fin ((Close (last data) - Close (hd data)) / Close (hd data) * 100))
            \<and> (length data = 1 \<and> Close (hd data) \<noteq> 0 \<longrightarrow> Return m = Fin 0)
            \<and> (length data = 1 \<and> Close (hd data) = 0 \<longrightarrow> Return m = NaN)"
    by (elim conjE exE)
  have keys: "(\<lambda>m. (Month m, Symbol m)) ` set ms = {((2024, 1), ''Z'')}"
    by (simp add: k zero_single_table_def to_period_M_def)
  have "Return m = NaN" if m: "m \<in> set ms" for m
  proof -
    from m keys have mk: "Month m = (2024, 1)" "Symbol m = ''Z''" by auto
    let ?data = "sort_key Date
        (filter (\<lambda>x. to_period_M (Date x) = Month m \<and> Symbol x = Symbol m) (rows ?df))"
    have d: "?data = [\<lparr>Symbol = ''Z'', Date = (2024, 1, 15), Close = 0, Volume = 10\<rparr>]"
      by (simp add: mk zero_single_table_def to_period_M_def)
    have "length ?data = 1 \<and> Close (hd ?data) = 0" by (simp add: d)
    with r m show ?thesis by blast
  qed
  with ms keys show ?thesis by blast
qed

section \<open>The first point of the cumulative returns\<close>

text \<open>
  Claim C1 at closes 100, 110, 99.  The first daily return is not-a-number, and
  \<open>cumprod\<close> keeps a not-a-number entry: the cumulative return at the first date is
  not-a-number, where the axis of the plot is labelled \<open>Growth Factor (1.0 = Start)\<close>.  The
  later points are the running product, 1.10 and 0.99.
\<close>

theorem cumulative_return_first_point:
  "calculate_cumulative_returns growth_table [''A''] =
     [\<lparr>Symbol = ''A'', Date = (2024, 1, 1), Close = 100, Volume = 10,
       Daily_Return = NaN, Cumulative_Return = NaN\<rparr>,
      \<lparr>Symbol = ''A'', Date = (2024, 1, 2), Close = 110, Volume = 10,
       Daily_Return = Fin (1 / 10), Cumulative_Return = Fin (11 / 10)\<rparr>,
      \<lparr>Symbol = ''A'', Date = (2024, 1, 3), Close = 99, Volume = 10,
       Daily_Return = Fin (- (1 / 10)), Cumulative_Return = Fin (99 / 100)\<rparr>]"
  by (simp add: calculate_cumulative_returns_def group_transform_def pct_change_def cumprod_def
      fsub_def Let_def growth_table_def)

section \<open>The frame after a call\<close>

text \<open>
  Claim C10 at the two-symbol table.  \<open>calculate_monthly_performance\<close> assigns the column
  \<open>Month\<close> to the frame of its caller: after the call the frame has a column it did not
  have before.  \<open>calculate_cumulative_returns\<close> works on a copy instead.
\<close>

theorem monthly_performance_adds_column:
  "snd (calculate_monthly_performance gain_loss_table)
     = gain_loss_table\<lparr>Month_col := Some [(2024, 1), (2024, 1), (2024, 1), (2024, 1)]\<rparr>
   \<and> snd (calculate_monthly_performance gain_loss_table) \<noteq> gain_loss_table"
  by (simp add: calculate_monthly_performance_def to_period_M_def Let_def gain_loss_table_def)

section \<open>The correlation matrix\<close>

text \<open>The values of a column of the pivot table, the missing cells left out.\<close>

lemma complete_pairs_self:
  "complete_pairs c c = map (\<lambda>v. (v, v)) (concat (map (\<lambda>cell. case cell of None \<Rightarrow> [] | Some v \<Rightarrow> [v]) c))"
  unfolding complete_pairs_def
  by (induction c) (auto split: option.splits)

lemma set_present_cells:
  "set (concat (map (\<lambda>cell. case cell of None \<Rightarrow> [] | Some v \<Rightarrow> [v]) c)) = {v. Some v \<in> set c}"
  by (induction c) (auto split: option.splits)

lemma constant_mean:
  assumes "vals \<noteq> []" and "\<forall>v\<in>set vals. v = a"
  shows "sum_list vals / real (length vals) = (a::real)"
proof -
  have "vals = replicate (length vals) a"
    using assms(2) by (induction vals) simp_all
  then have "sum_list vals = real (length vals) * a"
    by (metis sum_list_replicate)
  with assms(1) show ?thesis by simp
qed

lemma squares_zero_iff:
  fixes vals :: "real list"
  shows "sum_list (map (\<lambda>v. (v - m) * (v - m)) vals) = 0 \<longleftrightarrow> (\<forall>v\<in>set vals. v = m)"
proof -
  have "sum_list (map (\<lambda>v. (v - m) * (v - m)) vals) = 0
      \<longleftrightarrow> (\<forall>x\<in>set (map (\<lambda>v. (v - m) * (v - m)) vals). x = 0)"
    by (rule sum_list_nonneg_eq_0_iff) auto
  then show ?thesis by simp
qed

lemma squares_nonneg:
  fixes vals :: "real list"
  shows "0 \<le> sum_list (map (\<lambda>v. (v - m) * (v - m)) vals)"
  by (rule sum_list_nonneg) auto

lemma varying_iff:
  fixes vals :: "real list"
  assumes "vals \<noteq> []"
  shows "(\<exists>a\<in>set vals. \<exists>b\<in>set vals. a \<noteq> b)
      \<longleftrightarrow> \<not> (\<forall>v\<in>set vals. v = sum_list vals / real (length vals))"
proof
  assume "\<exists>a\<in>set vals. \<exists>b\<in>set vals. a \<noteq> b"
  then show "\<not> (\<forall>v\<in>set vals. v = sum_list vals / real (length vals))" by metis
next
  assume *: "\<not> (\<forall>v\<in>set vals. v = sum_list vals / real (length vals))"
  show "\<exists>a\<in>set vals. \<exists>b\<in>set vals. a \<noteq> b"
  proof (rule ccontr)
    assume "\<not> (\<exists>a\<in>set vals. \<exists>b\<in>set vals. a \<noteq> b)"
    then have eq: "\<forall>a\<in>set vals. \<forall>b\<in>set vals. a = b" by blast
    from assms obtain a where a: "a \<in> set vals" by (cases vals) auto
    with eq have "\<forall>v\<in>set vals. v = a" by blast
    with assms have "sum_list vals / real (length vals) = a" by (rule constant_mean)
    with \<open>\<forall>v\<in>set vals. v = a\<close> * show False by simp
  qed
qed

lemma nancorr_self:
  "nancorr c c = (if \<exists>a. \<exists>b. Some a \<in> set c \<and> Some b \<in> set c \<and> a \<noteq> b then Fin 1 else NaN)"
proof -
  define vals where "vals = concat (map (\<lambda>cell. case cell of None \<Rightarrow> [] | Some v \<Rightarrow> [v]) c)"
  define m where "m = sum_list vals / real (length vals)"
  define S where "S = sum_list (map (\<lambda>v. (v - m) * (v - m)) vals)"
  define varying where "varying \<longleftrightarrow> (\<exists>a. \<exists>b. Some a \<in> set c \<and> Some b \<in> set c \<and> a \<noteq> b)"
  have val: "nancorr c c = (if length vals < 1 then NaN
      else if sqrt (S * S) \<noteq> 0 then Fin (S / sqrt (S * S)) else NaN)"
    by (simp add: nancorr_def complete_pairs_self comp_def Let_def vals_def m_def S_def)
  have nonneg: "0 \<le> S"
    unfolding S_def by (rule squares_nonneg)
  have vary: "varying \<longleftrightarrow> (\<exists>a\<in>set vals. \<exists>b\<in>set vals. a \<noteq> b)"
    unfolding varying_def vals_def set_present_cells by blast
  have "nancorr c c = (if varying then Fin 1 else NaN)"
  proof (cases "vals = []")
    case True
    then have "nancorr c c = NaN" by (simp add: val)
    moreover have "\<not> varying" by (simp add: vary True)
    ultimately show ?thesis by simp
  next
    case False
    then have len: "\<not> length vals < 1" by (cases vals) simp_all
    have "S = 0 \<longleftrightarrow> (\<forall>v\<in>set vals. v = m)"
      unfolding S_def by (rule squares_zero_iff)
    with varying_iff [OF False] vary have "S \<noteq> 0 \<longleftrightarrow> varying"
      by (simp add: m_def)
    with False nonneg show ?thesis
      by (auto simp: val)
  qed
  then show ?thesis by (simp only: varying_def)
qed

lemma collect_map:
  "(\<And>g. g \<in> set gs \<Longrightarrow> f g = Inr (h g)) \<Longrightarrow> collect f gs = Inr (map h gs)"
  by (induction gs) simp_all

lemma map_of_tabulate:
  "map_of (map (\<lambda>k. (k, f k)) ks) k = (if k \<in> set ks then Some (f k) else None)"
  by (induction ks) simp_all

lemma find_Some_member: "find P xs = Some x \<Longrightarrow> x \<in> set xs \<and> P x"
  by (induction xs) (auto split: if_splits)

lemma find_member_Some: "x \<in> set xs \<Longrightarrow> P x \<Longrightarrow> \<exists>y. find P xs = Some y"
  by (induction xs) auto

lemma pivot_cell:
  assumes "distinct (map (\<lambda>ob. (Date ob, Symbol ob)) xs)"
  shows "Some a \<in> set (map (\<lambda>d. map_option Close (find (\<lambda>ob. Date ob = d \<and> Symbol ob = s) xs))
                           (sort (remdups (map Date xs))))
         \<longleftrightarrow> (\<exists>x\<in>set xs. Symbol x = s \<and> Close x = a)"
proof
  assume "Some a \<in> set (map (\<lambda>d. map_option Close (find (\<lambda>ob. Date ob = d \<and> Symbol ob = s) xs))
                           (sort (remdups (map Date xs))))"
  then have "Some a \<in> (\<lambda>d. map_option Close (find (\<lambda>ob. Date ob = d \<and> Symbol ob = s) xs))
                         ` set (sort (remdups (map Date xs)))"
    by (simp only: set_map)
  then obtain d where
    "Some a = map_option Close (find (\<lambda>ob. Date ob = d \<and> Symbol ob = s) xs)"
    by blast
  then obtain ob where "find (\<lambda>ob. Date ob = d \<and> Symbol ob = s) xs = Some ob" "Close ob = a"
    by (cases "find (\<lambda>ob. Date ob = d \<and> Symbol ob = s) xs") simp_all
  then show "\<exists>x\<in>set xs. Symbol x = s \<and> Close x = a"
    by (auto dest: find_Some_member)
next
  assume "\<exists>x\<in>set xs. Symbol x = s \<and> Close x = a"
  then obtain x where x: "x \<in> set xs" "Symbol x = s" "Close x = a" by blast
  then obtain y where y: "find (\<lambda>ob. Date ob = Date x \<and> Symbol ob = s) xs = Some y"
    using find_member_Some [of x xs "\<lambda>ob. Date ob = Date x \<and> Symbol ob = s"] by auto
  then have "y \<in> set xs" "Date y = Date x" "Symbol y = Symbol x"
    using x(2) by (auto dest: find_Some_member)
  with assms x(1) have "y = x"
    using distinct_map_unique [of "\<lambda>ob. (Date ob, Symbol ob)" xs y x] by simp
  with y x(3) have "map_option Close (find (\<lambda>ob. Date ob = Date x \<and> Symbol ob = s) xs) = Some a"
    by simp
  moreover have "Date x \<in> set (sort (remdups (map Date xs)))"
    using x(1) by simp
  ultimately have "Some a \<in> (\<lambda>d. map_option Close (find (\<lambda>ob. Date ob = d \<and> Symbol ob = s) xs))
                         ` set (sort (remdups (map Date xs)))"
    by (intro image_eqI [where x = "Date x"]) (rule sym)
  then show "Some a \<in> set (map (\<lambda>d. map_option Close (find (\<lambda>ob. Date ob = d \<and> Symbol ob = s) xs))
                           (sort (remdups (map Date xs))))"
    by (simp only: set_map)
qed

lemma correlation_cells:
  assumes "distinct (map (\<lambda>ob. (Date ob, Symbol ob)) (rows df))"
    and "set top15 \<subseteq> Symbol ` set (rows df)"
  obtains col where
    "correlation df top15 =
       Inr (map (\<lambda>i. map (\<lambda>j. nancorr (col (top15 ! max i j)) (col (top15 ! min i j)))
                          [0..<length top15]) [0..<length top15])"
    and "\<And>s a. Some a \<in> set (col s) \<longleftrightarrow> (\<exists>x\<in>set (rows df). Symbol x = s \<and> Close x = a)"
proof -
  let ?xs = "rows df"
  let ?idx = "sort (remdups (map Date ?xs))"
  let ?syms = "sort (remdups (map Symbol ?xs))"
  define col where "col = (\<lambda>s. map (\<lambda>d. map_option Close
      (find (\<lambda>ob. Date ob = d \<and> Symbol ob = s) ?xs)) ?idx)"
  let ?pv = "\<lparr>index = ?idx, columns = map (\<lambda>s. (s, col s)) ?syms\<rparr>"
  let ?K = "length top15"
  have pv: "pivot df = Inr ?pv"
    using assms(1) by (simp add: pivot_def Let_def col_def)
  have "collect (\<lambda>s. case map_of (columns ?pv) s of None \<Rightarrow> Inl KeyError
                                                      | Some c \<Rightarrow> Inr (s, c)) top15
      = Inr (map (\<lambda>s. (s, col s)) top15)"
  proof (rule collect_map)
    fix s assume "s \<in> set top15"
    with assms(2) have "s \<in> set ?syms" by auto
    then show "(case map_of (columns ?pv) s of None \<Rightarrow> Inl KeyError | Some c \<Rightarrow> Inr (s, c))
        = Inr (s, col s)"
      by (simp add: map_of_tabulate)
  qed
  then have sel: "getitem ?pv top15 = Inr (?pv\<lparr>columns := map (\<lambda>s. (s, col s)) top15\<rparr>)"
    by (simp add: getitem_def)
  have cells: "map (\<lambda>i. map (\<lambda>j. nancorr (map col top15 ! max i j) (map col top15 ! min i j))
                              [0..<?K]) [0..<?K]
      = map (\<lambda>i. map (\<lambda>j. nancorr (col (top15 ! max i j)) (col (top15 ! min i j)))
                        [0..<?K]) [0..<?K]"
    by (intro map_cong refl) simp
  have "correlation df top15 = Inr (corr (?pv\<lparr>columns := map (\<lambda>s. (s, col s)) top15\<rparr>))"
    by (simp add: correlation_def pv sel)
  also have "corr (?pv\<lparr>columns := map (\<lambda>s. (s, col s)) top15\<rparr>)
      = map (\<lambda>i. map (\<lambda>j. nancorr (col (top15 ! max i j)) (col (top15 ! min i j)))
                        [0..<?K]) [0..<?K]"
    using cells by (simp add: corr_def Let_def comp_def)
  finally have 1: "correlation df top15 =
       Inr (map (\<lambda>i. map (\<lambda>j. nancorr (col (top15 ! max i j)) (col (top15 ! min i j)))
                          [0..<?K]) [0..<?K])" .
  have 2: "Some a \<in> set (col s) \<longleftrightarrow> (\<exists>x\<in>set ?xs. Symbol x = s \<and> Close x = a)" for s a
    unfolding col_def using assms(1) by (rule pivot_cell)
  from 1 2 show ?thesis by (rule that)
qed

text \<open>A symbol with a constant close has no correlation with itself.\<close>

theorem correlation_diagonal_counterexample:
  "correlation flat_pair_table [''C''] = Inr [[NaN]]"
  by (simp add: correlation_def pivot_def getitem_def corr_def nancorr_def complete_pairs_def
      Let_def flat_pair_table_def)

text \<open>
  Claim C8, as the code has it.  For a table without two rows of the same date and symbol
  and a selection of symbols of the table, the correlation matrix has one line and one
  column for each selected symbol and is symmetric: the cell for (i, j) is the cell for
  (j, i).  A diagonal entry is 1.0 when the symbol has two different closes, and
  not-a-number when all its closes are equal (a constant price, or a single observation).
\<close>

theorem correlation_symmetric_diagonal:
  assumes "distinct (map (\<lambda>ob. (Date ob, Symbol ob)) (rows df))"
    and "set top15 \<subseteq> Symbol ` set (rows df)"
  shows "\<exists>M. correlation df top15 = Inr M
           \<and> length M = length top15
           \<and> (\<forall>i<length top15. length (M ! i) = length top15)
           \<and> (\<forall>i<length top15. \<forall>j<length top15. M ! i ! j = M ! j ! i)
           \<and> (\<forall>i<length top15. M ! i ! i =
                 (if \<exists>x\<in>set (rows df). \<exists>y\<in>set (rows df).
                       Symbol x = top15 ! i \<and> Symbol y = top15 ! i \<and> Close x \<noteq> Close y
                  then Fin 1 else NaN))"
proof (rule correlation_cells [OF assms])
  fix col
  let ?K = "length top15"
  let ?M = "map (\<lambda>i. map (\<lambda>j. nancorr (col (top15 ! max i j)) (col (top15 ! min i j)))
                            [0..<?K]) [0..<?K]"
  assume M: "correlation df top15 = Inr ?M"
    and col: "\<And>s a. Some a \<in> set (col s) \<longleftrightarrow> (\<exists>x\<in>set (rows df). Symbol x = s \<and> Close x = a)"
  have cell: "?M ! i ! j = nancorr (col (top15 ! max i j)) (col (top15 ! min i j))"
    if "i < ?K" "j < ?K" for i j
    using that by simp
  have sym: "?M ! i ! j = ?M ! j ! i" if "i < ?K" "j < ?K" for i j
    using that by (simp only: cell max.commute [of i j] min.commute [of i j])
  have diag: "?M ! i ! i =
      (if \<exists>x\<in>set (rows df). \<exists>y\<in>set (rows df).
            Symbol x = top15 ! i \<and> Symbol y = top15 ! i \<and> Close x \<noteq> Close y
       then Fin 1 else NaN)" if "i < ?K" for i
  proof -
    have "(\<exists>a. \<exists>b. Some a \<in> set (col (top15 ! i)) \<and> Some b \<in> set (col (top15 ! i)) \<and> a \<noteq> b)
        \<longleftrightarrow> (\<exists>x\<in>set (rows df). \<exists>y\<in>set (rows df).
            Symbol x = top15 ! i \<and> Symbol y = top15 ! i \<and> Close x \<noteq> Close y)"
      unfolding col by blast
    moreover have "?M ! i ! i = nancorr (col (top15 ! i)) (col (top15 ! i))"
      using cell [OF that that] by simp
    ultimately show ?thesis by (simp only: nancorr_self)
  qed
  have "length ?M = ?K" by simp
  moreover have "\<forall>i<?K. length (?M ! i) = ?K" by simp
  moreover have "\<forall>i<?K. \<forall>j<?K. ?M ! i ! j = ?M ! j ! i"
    using sym by blast
  moreover have "\<forall>i<?K. ?M ! i ! i =
      (if \<exists>x\<in>set (rows df). \<exists>y\<in>set (rows df).
            Symbol x = top15 ! i \<and> Symbol y = top15 ! i \<and> Close x \<noteq> Close y
       then Fin 1 else NaN)"
    using diag by blast
  ultimately show ?thesis
    using M by (intro exI [of _ ?M] conjI)
qed

text \<open>
  The claim at the three-day table: \<open>C\<close> is constant, \<open>G\<close> is not.
\<close>

theorem correlation_symmetric_diagonal_witness:
  "distinct (map (\<lambda>ob. (Date ob, Symbol ob)) (rows flat_table))
   \<and> set [''C'', ''G''] \<subseteq> Symbol ` set (rows flat_table)
   \<and> (\<exists>M. correlation flat_table [''C'', ''G''] = Inr M
          \<and> length M = 2
          \<and> M ! 0 ! 1 = M ! 1 ! 0
          \<and> M ! 0 ! 0 = NaN
          \<and> M ! 1 ! 1 = Fin 1)"
proof -
  let ?top = "[''C'', ''G'']"
  have h1: "distinct (map (\<lambda>ob. (Date ob, Symbol ob)) (rows flat_table))"
    by (simp add: flat_table_def)
  have h2: "set ?top \<subseteq> Symbol ` set (rows flat_table)"
    by (simp add: flat_table_def)
  from correlation_symmetric_diagonal [OF h1 h2] obtain M where
    M: "correlation flat_table ?top = Inr M"
    and len: "length M = length ?top"
    and sym: "\<forall>i<length ?top. \<forall>j<length ?top. M ! i ! j = M ! j ! i"
    and diag: "\<forall>i<length ?top. M ! i ! i =
                 (if \<exists>x\<in>set (rows flat_table). \<exists>y\<in>set (rows flat_table).
                       Symbol x = ?top ! i \<and> Symbol y = ?top ! i \<and> Close x \<noteq> Close y
                  then Fin 1 else NaN)"
    by (elim exE conjE)
  have "M ! 0 ! 1 = M ! 1 ! 0" using sym by simp
  moreover have "M ! 0 ! 0 = NaN"
    using diag [rule_format, of 0] by (simp add: flat_table_def)
  moreover have "M ! 1 ! 1 = Fin 1"
    using diag [rule_format, of 1] by (simp add: flat_table_def)
  moreover have "length M = 2" using len by simp
  ultimately show ?thesis
    using h1 h2 M by (intro conjI exI [of _ M])
qed

section \<open>An empty table\<close>

text \<open>
  On the table with columns and no row the loop of \<open>calculate_metrics\<close> appends nothing,
  and sorting the frame built from the empty list raises \<open>KeyError\<close>;
  \<open>calculate_volatility\<close> does the same, and so does the correlation step for a selected
  symbol.  On the frame without columns the cumulative returns, the monthly performance
  and the correlation step raise \<open>KeyError\<close> as well.
\<close>

theorem empty_table_counterexample:
  "calculate_metrics_on (Table empty_table) = Inl KeyError
   \<and> calculate_volatility_on (Table empty_table) = Inl KeyError
   \<and> correlation_on (Table empty_table) [''A''] = Inl KeyError
   \<and> calculate_cumulative_returns_on No_columns [] = Inl KeyError
   \<and> calculate_monthly_performance_on No_columns = (Inl KeyError, No_columns)
   \<and> correlation_on No_columns [] = Inl KeyError"
  by (simp add: calculate_metrics_on_def calculate_volatility_on_def correlation_on_def
      calculate_cumulative_returns_on_def calculate_monthly_performance_on_def
      calculate_metrics_def calculate_volatility_def correlation_def pivot_def getitem_def
      groupby_def Let_def empty_table_def)

lemma correlation_no_rows:
  assumes "rows df = []"
  shows "correlation df [] = Inr []"
    and "top15 \<noteq> [] \<Longrightarrow> correlation df top15 = Inl KeyError"
proof -
  have pv: "pivot df = Inr \<lparr>index = [], columns = []\<rparr>"
    using assms by (simp add: pivot_def Let_def)
  show "correlation df [] = Inr []"
    by (simp add: correlation_def pv getitem_def corr_def Let_def)
  show "correlation df top15 = Inl KeyError" if "top15 \<noteq> []"
    using that by (cases top15) (simp_all add: correlation_def pv getitem_def)
qed

text \<open>
  Claim C2, as the code has it.  On an empty frame the script calls no calculator and
  shows the warning.  Called all the same, \<open>calculate_metrics\<close> and
  \<open>calculate_volatility\<close> raise \<open>KeyError\<close> on either empty frame.  On the frame without
  columns the cumulative returns, the monthly performance and the correlation step raise
  \<open>KeyError\<close> too, and the frame is left as it was.  On the table with columns and no row
  the cumulative returns and the monthly performance are empty and nothing is raised; the
  correlation step gives the empty matrix for an empty selection and raises \<open>KeyError\<close>
  for any other.
\<close>

theorem empty_table_results:
  assumes "df_empty d"
  shows "app d = (Inr (Warning ''No data found. Please check your CSV path.''), d)
       \<and> calculate_metrics_on d = Inl KeyError
       \<and> calculate_volatility_on d = Inl KeyError
       \<and> (d = No_columns \<longrightarrow>
             calculate_cumulative_returns_on d top_symbols = Inl KeyError
             \<and> calculate_monthly_performance_on d = (Inl KeyError, d)
             \<and> correlation_on d top_symbols = Inl KeyError)
       \<and> (d \<noteq> No_columns \<longrightarrow>
             calculate_cumulative_returns_on d top_symbols = Inr []
             \<and> fst (calculate_monthly_performance_on d) = Inr []
             \<and> correlation_on d [] = Inr []
             \<and> (top_symbols \<noteq> [] \<longrightarrow> correlation_on d top_symbols = Inl KeyError))"
proof (cases d)
  case No_columns
  then show ?thesis
    by (simp add: app_def df_empty_def calculate_metrics_on_def calculate_volatility_on_def
        calculate_cumulative_returns_on_def calculate_monthly_performance_on_def
        correlation_on_def)
next
  case (Table df)
  with assms have none: "rows df = []" by (simp add: df_empty_def)
  have "calculate_metrics df = Inl KeyError" "calculate_volatility df = Inl KeyError"
    using none by (simp_all add: calculate_metrics_def calculate_volatility_def groupby_def)
  moreover have "calculate_cumulative_returns df top_symbols = []"
    using none by (simp add: calculate_cumulative_returns_def group_transform_def)
  moreover have "fst (calculate_monthly_performance df) = Inr []"
    using none by (simp add: calculate_monthly_performance_def groupby_def)
  moreover note correlation_no_rows [OF none]
  ultimately show ?thesis
    using assms Table
    by (simp add: app_def calculate_metrics_on_def calculate_volatility_on_def
        calculate_cumulative_returns_on_def calculate_monthly_performance_on_def
        correlation_on_def split_beta)
qed

text \<open>The amended claim at the two empty frames.\<close>

theorem empty_table_results_witness:
  "df_empty No_columns \<and> df_empty (Table empty_table)
   \<and> app No_columns = (Inr (Warning ''No data found. Please check your CSV path.''), No_columns)
   \<and> app (Table empty_table)
       = (Inr (Warning ''No data found. Please check your CSV path.''), Table empty_table)
   \<and> calculate_metrics_on No_columns = Inl KeyError
   \<and> calculate_metrics_on (Table empty_table) = Inl KeyError
   \<and> calculate_volatility_on No_columns = Inl KeyError
   \<and> calculate_volatility_on (Table empty_table) = Inl KeyError
   \<and> calculate_cumulative_returns_on No_columns [''A''] = Inl KeyError
   \<and> calculate_monthly_performance_on No_columns = (Inl KeyError, No_columns)
   \<and> correlation_on No_columns [''A''] = Inl KeyError
   \<and> calculate_cumulative_returns_on (Table empty_table) [''A''] = Inr []
   \<and> fst (calculate_monthly_performance_on (Table empty_table)) = Inr []
   \<and> correlation_on (Table empty_table) [] = Inr []
   \<and> correlation_on (Table empty_table) [''A''] = Inl KeyError"
proof -
  have h1: "df_empty No_columns" by (simp add: df_empty_def)
  have h2: "df_empty (Table empty_table)" by (simp add: df_empty_def empty_table_def)
  from empty_table_results [OF h1, of "[''A'']"] empty_table_results [OF h2, of "[''A'']"] h1 h2
  show ?thesis by simp
qed

end
